theory Spec2Isabelle
  imports Main "HOL-Library.Word" "HOL-Library.Multiset"
begin

section \<open>The optimizing compiler driver of ART (optimizing\_compiler.cc)\<close>

text \<open>
  The file embedded here is \<^verbatim>\<open>compiler/optimizing/optimizing_compiler.cc\<close>. It drives
  collaborators whose code lives in other files (the IR graph, the code generator, the
  individual optimizations, the JIT code cache, the compiled-method storage). Their
  behaviour enters the model as the fields of an environment record: what a collaborator
  answers is a parameter, what the driver does with the answer is the model. The calls
  the driver makes on its collaborators are recorded, in program order, in traces.

  \<^verbatim>\<open>DCHECK\<close> assertions state what callers and collaborators guarantee; they are
  compiled out of release builds and the model does not branch on them. The
  \<^verbatim>\<open>LOG(FATAL)\<close> of \<^verbatim>\<open>PassObserver::EndPass\<close>, guarded by
  \<^verbatim>\<open>kIsDebugBuild\<close>, is program logic and is a result of its own.

  Left out are the diagnostics that change nothing else: the \<^verbatim>\<open>VLOG\<close> lines, the arena
  accounting under \<^verbatim>\<open>kArenaAllocatorCountAllocations\<close>, and the switch that enables
  call-frame information in the assembler. Arena and handle-scope management has no
  counterpart in a model without memory.
\<close>

subsection \<open>Enumerations\<close>

text \<open>
  \<^verbatim>\<open>InstructionSet\<close> is declared in a header outside this file, which names five
  enumerators. \<open>kUnsupportedIsa\<close> stands for every other one.
\<close>

datatype InstructionSet = kArm | kArm64 | kThumb2 | kX86 | kX86_64 | kUnsupportedIsa

text \<open>Only \<^verbatim>\<open>CompilerFilter::kSpace\<close> is named by this file.\<close>

datatype CompilerFilter = kSpace | kOtherFilter

datatype CompilationKind = kOsr | kBaseline | kOptimized

datatype MethodCompilationStat =
    kAttemptBytecodeCompilation
  | kAttemptIntrinsicCompilation
  | kCompiledNativeStub
  | kCompiledIntrinsic
  | kCompiledBytecode
  | kNotCompiledUnsupportedIsa
  | kNotCompiledPathological
  | kNotCompiledSpaceFilter
  | kNotCompiledNoCodegen
  | kNotCompiledSkipped
  | kNotCompiledInvalidBytecode
  | kNotCompiledThrowCatchLoop
  | kNotCompiledAmbiguousArrayOp
  | kNotCompiledIrreducibleLoopAndStringInit
  | kNotCompiledPhiEquivalentInOsr
  | kJitOutOfMemoryForCommit

datatype GraphAnalysisResult =
    kAnalysisSkipped
  | kAnalysisInvalidBytecode
  | kAnalysisFailThrowCatchLoop
  | kAnalysisFailAmbiguousArrayOp
  | kAnalysisFailIrreducibleLoopAndStringInit
  | kAnalysisFailPhiEquivalentInOsr
  | kAnalysisSuccess

text \<open>
  The pass identities this file names. \<open>kNone\<close> is the sentinel that \<^verbatim>\<open>OptDef\<close>
  uses as the default \<^verbatim>\<open>depends_on\<close>.
\<close>

datatype OptimizationPass =
    kAggressiveInstructionSimplifier
  | kBoundsCheckElimination
  | kCHAGuardOptimization
  | kCodeSinking
  | kConstantFolding
  | kConstructorFenceRedundancyElimination
  | kDeadCodeElimination
  | kGlobalValueNumbering
  | kInductionVarAnalysis
  | kInliner
  | kInstructionSimplifier
  | kInvariantCodeMotion
  | kLoadStoreElimination
  | kLoopOptimization
  | kScheduling
  | kSelectGenerator
  | kSideEffectsAnalysis
  | kInstructionSimplifierArm
  | kCriticalNativeAbiFixupArm
  | kInstructionSimplifierArm64
  | kInstructionSimplifierX86
  | kInstructionSimplifierX86_64
  | kPcRelativeFixupsX86
  | kX86MemoryOperandGeneration
  | kNone

text \<open>
  The names under which a \<^verbatim>\<open>PassScope\<close> is opened: four constants of other headers,
  or the \<^verbatim>\<open>GetPassName()\<close> of an optimization.
\<close>

datatype pass_name =
    kBuilderPassName
  | kPrepareForRegisterAllocationPassName
  | kLivenessPassName
  | kRegisterAllocatorPassName
  | PassName string

subsection \<open>Data\<close>

type_synonym uint8_t = "8 word"

record OptimizationDef =
  pass :: OptimizationPass
  pass_name :: "string option"
  depends_on :: OptimizationPass

text \<open>\<^verbatim>\<open>OptDef(pass, pass_name = nullptr, depends_on = OptimizationPass::kNone)\<close>.\<close>

definition OptDef :: "OptimizationPass \<Rightarrow> OptimizationDef" where
  "OptDef p = \<lparr>pass = p, pass_name = None, depends_on = kNone\<rparr>"

definition OptDefN :: "OptimizationPass \<Rightarrow> string \<Rightarrow> OptimizationDef" where
  "OptDefN p n = \<lparr>pass = p, pass_name = Some n, depends_on = kNone\<rparr>"

definition OptDefD :: "OptimizationPass \<Rightarrow> string \<Rightarrow> OptimizationPass \<Rightarrow> OptimizationDef" where
  "OptDefD p n d = \<lparr>pass = p, pass_name = Some n, depends_on = d\<rparr>"

text \<open>
  An optimization bound to the graph: its name and its \<^verbatim>\<open>Run()\<close>, which mutates
  the graph and reports whether it changed anything. The type \<open>'g\<close> is the IR graph
  together with the code generator created for it.
\<close>

record 'g HOptimization =
  GetPassName :: string
  Run :: "'g \<Rightarrow> bool \<times> 'g"

record CodeItem =
  InsnsSizeInCodeUnits :: nat

record ArtMethod =
  IsIntrinsic :: bool
  IsSignaturePolymorphic :: bool
  IsNative :: bool
  IsCriticalNative :: bool

text \<open>
  Modelled from the spec: \<^verbatim>\<open>linker::LinkerPatch\<close> is declared outside this file. A
  relocation patch has an in-code literal offset and the signature under which its
  thunk code is keyed in the storage.
\<close>

record LinkerPatch =
  LiteralOffset :: nat
  ThunkSignature :: nat

record CompiledMethod =
  cm_instruction_set :: InstructionSet
  cm_code :: "uint8_t list"
  cm_stack_map :: "uint8_t list"
  cm_cfi :: "uint8_t list"
  cm_patches :: "LinkerPatch list"
  cm_intrinsic :: bool

record JniCompiledMethod =
  jni_instruction_set :: InstructionSet
  jni_code :: "uint8_t list"
  jni_frame_size :: nat
  jni_core_spill_mask :: nat
  jni_fp_spill_mask :: nat
  jni_cfi :: "uint8_t list"

text \<open>
  What \<^verbatim>\<open>CreateJniStackMap\<close> feeds into a \<^verbatim>\<open>StackMapStream\<close>: the arguments of
  \<^verbatim>\<open>BeginMethod\<close> and of \<^verbatim>\<open>EndMethod\<close>.
\<close>

record StackMapStream =
  sms_instruction_set :: InstructionSet
  sms_frame_size :: nat
  sms_core_spill_mask :: nat
  sms_fp_spill_mask :: nat
  sms_num_dex_registers :: nat
  sms_baseline :: bool
  sms_debuggable :: bool
  sms_code_size :: nat

text \<open>\<^verbatim>\<open>ArrayRef<const uint8_t>\<close> into the code cache: an address and a size.\<close>

record ArrayRef =
  data :: nat
  size_of :: nat

record MethodDebugInfo =
  info_custom_name :: string
  info_isa :: InstructionSet
  info_is_native_debuggable :: bool
  info_code_address :: nat
  info_code_size :: nat
  info_frame_size_in_bytes :: nat
  info_code_info :: "uint8_t list option"
  info_cfi :: "uint8_t list"

text \<open>The arguments of \<^verbatim>\<open>JitCodeCache::Commit\<close> that vary between its two calls.\<close>

record CommitArgs =
  arg_reserved_code :: ArrayRef
  arg_code :: "uint8_t list"
  arg_reserved_data :: ArrayRef
  arg_roots :: "nat list"
  arg_stack_map :: "uint8_t list"
  arg_debug_info :: "uint8_t list"
  arg_is_full_debug_info :: bool
  arg_compilation_kind :: CompilationKind
  arg_has_should_deoptimize_flag :: bool
  arg_cha_single_implementation_list :: "nat list"

record CompilerOptions =
  GetInstructionSet :: InstructionSet
  GetCompilerFilter :: CompilerFilter
  GetDumpPassTimings :: bool
  GetDumpCfgFileName :: string
  verbose_methods :: "string list option"
  GetPassesToRun :: "string list option"
  GetRegisterAllocationStrategy :: nat
  GetDebuggable :: bool
  GetNativeDebuggable :: bool
  GetGenerateDebugInfo :: bool
  GenerateAnyDebugInfo :: bool
  IsBootImage :: bool
  IsBaseline :: bool
  IsJitCompiler :: bool

subsection \<open>Traces\<close>

text \<open>
  The calls of one compilation on its collaborators, in program order:
  \<^verbatim>\<open>MaybeRecordStat(compilation_stats_.get(), stat)\<close>, the graph and code generator
  operations, what the pass observer writes to the visualizer and the timing logger,
  the thunks registered in the storage and the notifications to the JIT.
\<close>

datatype event =
    MaybeRecordStat MethodCompilationStat
  | NewHGraph bool CompilationKind
  | CodeGeneratorCreate bool
  | PrintHeader string
  | DumpGraph pass_name bool bool
  | StartTiming pass_name
  | EndTiming
  | LogTimings string
  | BuildGraphCall GraphAnalysisResult
  | BuildIntrinsicGraphCall
  | RunCall string bool
  | PrepareForRegisterAllocationRun
  | LivenessAnalyze
  | AllocateRegistersCall nat
  | CodegenCompile
  | DumpGraphWithDisassembly
  | SetThunkCodeCall LinkerPatch "uint8_t list" string
  | AddMemoryUsage nat
  | WriteLog nat nat

text \<open>The calls on the JIT code cache, with what they returned.\<close>

datatype cache_call =
    ReserveCall nat nat nat "(ArrayRef \<times> ArrayRef) option"
  | CommitCall CommitArgs bool
  | FreeCall nat nat

text \<open>
  \<^verbatim>\<open>LOG(FATAL)\<close> in \<^verbatim>\<open>EndPass\<close>: the graph checker rejected the graph after the named
  pass. The process ends there; the trace up to that point is kept.
\<close>

datatype fatal = GraphInvalidAfter pass_name "event list"

subsection \<open>The environment of one compilation\<close>

record 'g Collaborators =
  HGraph_new :: "bool \<Rightarrow> CompilationKind \<Rightarrow> ArtMethod option \<Rightarrow> 'g"
  CodeGenerator_Create :: "'g \<Rightarrow> 'g option"
  BuildGraph :: "'g \<Rightarrow> GraphAnalysisResult \<times> 'g"
  BuildIntrinsicGraph :: "ArtMethod \<Rightarrow> 'g \<Rightarrow> 'g"
  ConstructOptimizations :: "OptimizationDef list \<Rightarrow> 'g HOptimization list"
  OptimizationPassByName :: "string \<Rightarrow> OptimizationPass"
  checker_Run :: "'g \<Rightarrow> bool \<Rightarrow> nat \<Rightarrow> nat"
  checker_IsValid :: "'g \<Rightarrow> bool \<Rightarrow> nat \<Rightarrow> bool"
  PrepareForRegisterAllocation_Run :: "'g \<Rightarrow> 'g"
  SsaLivenessAnalysis_Analyze :: "'g \<Rightarrow> 'g"
  RegisterAllocator_AllocateRegisters :: "nat \<Rightarrow> 'g \<Rightarrow> 'g"
  IsLeafMethod :: "'g \<Rightarrow> bool"
  Codegen_Compile :: "'g \<Rightarrow> 'g"

record 'g Emitter =
  GetMemory :: "'g \<Rightarrow> uint8_t list"
  EmitLinkerPatches :: "'g \<Rightarrow> LinkerPatch list"
  BuildStackMaps :: "'g \<Rightarrow> CodeItem option \<Rightarrow> uint8_t list"
  GetCfi :: "'g \<Rightarrow> uint8_t list"
  Codegen_GetInstructionSet :: "'g \<Rightarrow> InstructionSet"
  NeedsThunkCode :: "'g \<Rightarrow> LinkerPatch \<Rightarrow> bool"
  EmitThunkCode :: "'g \<Rightarrow> LinkerPatch \<Rightarrow> uint8_t list \<times> string"
  GetNumberOfJitRoots :: "'g \<Rightarrow> nat"
  EmitJitRoots :: "'g \<Rightarrow> nat \<Rightarrow> 'g \<times> nat list"
  GetFrameSize :: "'g \<Rightarrow> nat"
  HasShouldDeoptimizeFlag :: "'g \<Rightarrow> bool"
  GetCHASingleImplementationList :: "'g \<Rightarrow> nat list"

record RuntimeEnv =
  kIsDebugBuild :: bool
  ART_ENABLE_CODEGEN_arm :: bool
  ART_ENABLE_CODEGEN_arm64 :: bool
  ART_ENABLE_CODEGEN_x86 :: bool
  ART_ENABLE_CODEGEN_x86_64 :: bool
  GetMethodName :: string
  IsPathologicalCase :: "CodeItem \<Rightarrow> bool"
  HasDeadReferenceSafeAnnotation :: bool
  MethodContainsRSensitiveAccess :: bool
  ResolveMethod :: "ArtMethod option"
  LookupResolvedMethod :: "ArtMethod option"
  ArtQuickJniCompileMethod :: JniCompiledMethod
  StackMapStream_Encode :: "StackMapStream \<Rightarrow> uint8_t list"
  IsJavaDebuggable :: bool
  Reserve_result :: "nat \<Rightarrow> nat \<Rightarrow> nat \<Rightarrow> (ArrayRef \<times> ArrayRef) option"
  Commit_result :: "CommitArgs \<Rightarrow> bool"
  InstructionAlignedSize :: nat
  MakeElfFileForJIT :: "InstructionSet \<Rightarrow> bool \<Rightarrow> MethodDebugInfo \<Rightarrow> uint8_t list"
  BytesUsed :: nat

record 'g env =
  options :: CompilerOptions
  rt :: RuntimeEnv
  col :: "'g Collaborators"
  emi :: "'g Emitter"

subsection \<open>The verbosity filter\<close>

text \<open>\<^verbatim>\<open>static constexpr const char kStringFilter[] = "";\<close>\<close>

definition kStringFilter :: string where
  "kStringFilter = ''''"

text \<open>\<^verbatim>\<open>arraysize\<close> of a character array counts the terminating NUL.\<close>

definition arraysize :: "string \<Rightarrow> nat" where
  "arraysize s = length s + 1"

text \<open>
  \<^verbatim>\<open>strstr(haystack, needle)\<close>: the suffix of the haystack that starts at the first
  occurrence of the needle, or \<open>None\<close> for the null pointer.
\<close>

fun strstr :: "string \<Rightarrow> string \<Rightarrow> string option" where
  "strstr [] needle = (if needle = [] then Some [] else None)"
| "strstr (c # cs) needle =
     (if take (length needle) (c # cs) = needle then Some (c # cs) else strstr cs needle)"

definition HasVerboseMethods :: "CompilerOptions \<Rightarrow> bool" where
  "HasVerboseMethods opts = (verbose_methods opts \<noteq> None)"

text \<open>
  Modelled from the spec: \<^verbatim>\<open>CompilerOptions::IsVerboseMethod\<close> is not part of this file.
  The spec has it as an exact match of the method name against the configured
  allow-list.
\<close>

definition CompilerOptions_IsVerboseMethod :: "CompilerOptions \<Rightarrow> string \<Rightarrow> bool" where
  "CompilerOptions_IsVerboseMethod opts method_name =
     (case verbose_methods opts of None \<Rightarrow> False | Some allowed \<Rightarrow> method_name \<in> set allowed)"

text \<open>
  \<^verbatim>\<open>PassObserver::IsVerboseMethod\<close>, with the compiled-in filter string as a parameter.
\<close>

definition IsVerboseMethod_filter :: "string \<Rightarrow> CompilerOptions \<Rightarrow> string \<Rightarrow> bool" where
  "IsVerboseMethod_filter filter_string opts method_name =
     (if HasVerboseMethods opts then CompilerOptions_IsVerboseMethod opts method_name
      else
        (let kStringFilterEmpty = (arraysize filter_string \<le> 1) in
         if kStringFilterEmpty \<or> strstr method_name filter_string \<noteq> None then True
         else False))"

definition IsVerboseMethod :: "CompilerOptions \<Rightarrow> string \<Rightarrow> bool" where
  "IsVerboseMethod = IsVerboseMethod_filter kStringFilter"

subsection \<open>PassObserver and PassScope\<close>

text \<open>
  The state of one compilation once its graph exists: the graph (with its code
  generator), the fields of the \<^verbatim>\<open>PassObserver\<close>, and the trace.
\<close>

record 'g compilation =
  graph :: 'g
  last_seen_graph_size :: nat
  timing_logger_enabled :: bool
  visualizer_enabled :: bool
  graph_in_bad_state :: bool
  trace :: "event list"

definition emit :: "event \<Rightarrow> 'g compilation \<Rightarrow> 'g compilation" where
  "emit e c = c\<lparr>trace := trace c @ [e]\<rparr>"

text \<open>The constructor of \<^verbatim>\<open>PassObserver\<close>.\<close>

definition PassObserver_new :: "'g env \<Rightarrow> 'g \<Rightarrow> event list \<Rightarrow> 'g compilation" where
  "PassObserver_new env g tr =
     (let timing = GetDumpPassTimings (options env);
          visualizer = (GetDumpCfgFileName (options env) \<noteq> []);
          verbose = IsVerboseMethod (options env) (GetMethodName (rt env));
          timing' = (if (timing \<or> visualizer) \<and> \<not> verbose then False else timing);
          visualizer' = (if (timing \<or> visualizer) \<and> \<not> verbose then False else visualizer)
      in \<lparr>graph = g,
          last_seen_graph_size = 0,
          timing_logger_enabled = timing',
          visualizer_enabled = visualizer',
          graph_in_bad_state = False,
          trace = (if visualizer' then tr @ [PrintHeader (GetMethodName (rt env))] else tr)\<rparr>)"

text \<open>The destructor of \<^verbatim>\<open>PassObserver\<close>; what is left is the trace.\<close>

definition PassObserver_delete :: "'g env \<Rightarrow> 'g compilation \<Rightarrow> event list" where
  "PassObserver_delete env c =
     (if timing_logger_enabled c then trace c @ [LogTimings (GetMethodName (rt env))]
      else trace c)"

definition DumpDisassembly :: "'g compilation \<Rightarrow> 'g compilation" where
  "DumpDisassembly c = (if visualizer_enabled c then emit DumpGraphWithDisassembly c else c)"

definition SetGraphInBadState :: "'g compilation \<Rightarrow> 'g compilation" where
  "SetGraphInBadState c = c\<lparr>graph_in_bad_state := True\<rparr>"

definition StartPass :: "pass_name \<Rightarrow> 'g compilation \<Rightarrow> 'g compilation" where
  "StartPass name c =
     (let c1 = (if visualizer_enabled c
                then emit (DumpGraph name False (graph_in_bad_state c)) c else c)
      in if timing_logger_enabled c1 then emit (StartTiming name) c1 else c1)"

definition EndPass :: "'g env \<Rightarrow> pass_name \<Rightarrow> bool \<Rightarrow> 'g compilation \<Rightarrow> fatal + 'g compilation" where
  "EndPass env name pass_change c =
     (let c1 = (if timing_logger_enabled c then emit EndTiming c else c);
          c2 = (if visualizer_enabled c1
                then emit (DumpGraph name True (graph_in_bad_state c1)) c1 else c1)
      in if kIsDebugBuild (rt env) \<and> \<not> graph_in_bad_state c2 then
           (let c3 = c2\<lparr>last_seen_graph_size :=
                          checker_Run (col env) (graph c2) pass_change (last_seen_graph_size c2)\<rparr>
            in if \<not> checker_IsValid (col env) (graph c2) pass_change (last_seen_graph_size c2)
               then Inl (GraphInvalidAfter name (trace c3))
               else Inr c3)
         else Inr c2)"

subsection \<open>RunOptimizations: the pass loop\<close>

record 'g pass_loop =
  comp :: "'g compilation"
  pass_changes :: "OptimizationPass \<Rightarrow> bool"
  change :: bool

text \<open>
  \<^verbatim>\<open>std::bitset<kLast + 1> pass_changes; pass_changes[kNone] = true; bool change = false;\<close>
\<close>

definition pass_loop_init :: "'g compilation \<Rightarrow> 'g pass_loop" where
  "pass_loop_init c = \<lparr>comp = c, pass_changes = (\<lambda>_. False)(kNone := True), change = False\<rparr>"

text \<open>One iteration of the loop, for \<^verbatim>\<open>definitions[i]\<close> and \<^verbatim>\<open>optimizations[i]\<close>.\<close>

definition pass_loop_body ::
  "'g env \<Rightarrow> 'g pass_loop \<Rightarrow> OptimizationDef \<times> 'g HOptimization \<Rightarrow> fatal + 'g pass_loop" where
  "pass_loop_body env s p =
     (let d = fst p; optimization = snd p in
      if pass_changes s (depends_on d) then
        (let name = PassName (GetPassName optimization);
             c1 = StartPass name (comp s);
             pass_change = fst (Run optimization (graph c1));
             c2 = emit (RunCall (GetPassName optimization) pass_change)
                    (c1\<lparr>graph := snd (Run optimization (graph c1))\<rparr>);
             s1 = s\<lparr>pass_changes := (pass_changes s)(pass d := pass_change)\<rparr>;
             s2 = (if pass_change then s1\<lparr>change := True\<rparr> else s1)
         in case EndPass env name pass_change c2 of
              Inl f \<Rightarrow> Inl f
            | Inr c3 \<Rightarrow> Inr (s2\<lparr>comp := c3\<rparr>))
      else Inr (s\<lparr>pass_changes := (pass_changes s)(pass d := False)\<rparr>))"

fun pass_loop_run ::
  "'g env \<Rightarrow> 'g pass_loop \<Rightarrow> (OptimizationDef \<times> 'g HOptimization) list \<Rightarrow> fatal + 'g pass_loop" where
  "pass_loop_run env s [] = Inr s"
| "pass_loop_run env s (p # ps) =
     (case pass_loop_body env s p of
        Inl f \<Rightarrow> Inl f
      | Inr s' \<Rightarrow> pass_loop_run env s' ps)"

text \<open>
  \<^verbatim>\<open>RunOptimizations(graph, codegen, dex_compilation_unit, pass_observer, definitions, length)\<close>.
  \<^verbatim>\<open>DCHECK_EQ(length, optimizations.size())\<close>: the loop pairs \<^verbatim>\<open>definitions[i]\<close> with
  \<^verbatim>\<open>optimizations[i]\<close>.
\<close>

definition RunOptimizations_defs ::
  "'g env \<Rightarrow> OptimizationDef list \<Rightarrow> 'g compilation \<Rightarrow> fatal + (bool \<times> 'g compilation)" where
  "RunOptimizations_defs env definitions c =
     (let optimizations = ConstructOptimizations (col env) definitions in
      case pass_loop_run env (pass_loop_init c) (zip definitions optimizations) of
        Inl f \<Rightarrow> Inl f
      | Inr s \<Rightarrow> Inr (change s, comp s))"


text \<open>Sequencing of steps that may end in \<^verbatim>\<open>LOG(FATAL)\<close>.\<close>

definition and_then :: "fatal + 'a \<Rightarrow> ('a \<Rightarrow> fatal + 'b) \<Rightarrow> fatal + 'b" where
  "and_then m f = (case m of Inl e \<Rightarrow> Inl e | Inr x \<Rightarrow> f x)"

definition IsInstructionSetSupported :: "InstructionSet \<Rightarrow> bool" where
  "IsInstructionSetSupported instruction_set =
     (instruction_set = kArm
      \<or> instruction_set = kArm64
      \<or> instruction_set = kThumb2
      \<or> instruction_set = kX86
      \<or> instruction_set = kX86_64)"

definition RunBaselineOptimizations ::
  "'g env \<Rightarrow> 'g compilation \<Rightarrow> fatal + (bool \<times> 'g compilation)" where
  "RunBaselineOptimizations env c =
     (let isa = GetInstructionSet (options env) in
      if ART_ENABLE_CODEGEN_arm (rt env) \<and> (isa = kThumb2 \<or> isa = kArm) then
        RunOptimizations_defs env [OptDef kCriticalNativeAbiFixupArm] c
      else if ART_ENABLE_CODEGEN_x86 (rt env) \<and> isa = kX86 then
        RunOptimizations_defs env [OptDef kPcRelativeFixupsX86] c
      else Inr (False, c))"

definition RunArchOptimizations ::
  "'g env \<Rightarrow> 'g compilation \<Rightarrow> fatal + (bool \<times> 'g compilation)" where
  "RunArchOptimizations env c =
     (let isa = GetInstructionSet (options env) in
      if ART_ENABLE_CODEGEN_arm (rt env) \<and> (isa = kThumb2 \<or> isa = kArm) then
        RunOptimizations_defs env
          [OptDef kInstructionSimplifierArm,
           OptDef kSideEffectsAnalysis,
           OptDefN kGlobalValueNumbering ''GVN$after_arch'',
           OptDef kCriticalNativeAbiFixupArm,
           OptDef kScheduling] c
      else if ART_ENABLE_CODEGEN_arm64 (rt env) \<and> isa = kArm64 then
        RunOptimizations_defs env
          [OptDef kInstructionSimplifierArm64,
           OptDef kSideEffectsAnalysis,
           OptDefN kGlobalValueNumbering ''GVN$after_arch'',
           OptDef kScheduling] c
      else if ART_ENABLE_CODEGEN_x86 (rt env) \<and> isa = kX86 then
        RunOptimizations_defs env
          [OptDef kInstructionSimplifierX86,
           OptDef kSideEffectsAnalysis,
           OptDefN kGlobalValueNumbering ''GVN$after_arch'',
           OptDef kPcRelativeFixupsX86,
           OptDef kX86MemoryOperandGeneration] c
      else if ART_ENABLE_CODEGEN_x86_64 (rt env) \<and> isa = kX86_64 then
        RunOptimizations_defs env
          [OptDef kInstructionSimplifierX86_64,
           OptDef kSideEffectsAnalysis,
           OptDefN kGlobalValueNumbering ''GVN$after_arch'',
           OptDef kX86MemoryOperandGeneration] c
      else Inr (False, c))"

text \<open>
  \<^verbatim>\<open>AllocateRegisters\<close>: three scopes. A \<^verbatim>\<open>PassScope\<close> on which
  \<^verbatim>\<open>SetPassNotChanged\<close> is not called ends with \<^verbatim>\<open>pass_change_ = true\<close>.
\<close>

definition AllocateRegisters :: "'g env \<Rightarrow> nat \<Rightarrow> 'g compilation \<Rightarrow> fatal + 'g compilation" where
  "AllocateRegisters env strategy c =
     (let c1 = StartPass kPrepareForRegisterAllocationPassName c;
          c2 = emit PrepareForRegisterAllocationRun
                 (c1\<lparr>graph := PrepareForRegisterAllocation_Run (col env) (graph c1)\<rparr>)
      in and_then (EndPass env kPrepareForRegisterAllocationPassName True c2) (\<lambda>c3.
         let c4 = StartPass kLivenessPassName c3;
             c5 = emit LivenessAnalyze
                    (c4\<lparr>graph := SsaLivenessAnalysis_Analyze (col env) (graph c4)\<rparr>)
         in and_then (EndPass env kLivenessPassName True c5) (\<lambda>c6.
            let c7 = StartPass kRegisterAllocatorPassName c6;
                c8 = emit (AllocateRegistersCall strategy)
                       (c7\<lparr>graph := RegisterAllocator_AllocateRegisters (col env) strategy (graph c7)\<rparr>)
            in EndPass env kRegisterAllocatorPassName True c8)))"

text \<open>\<^verbatim>\<open>static constexpr const char* kPassNameSeparator = "$";\<close>\<close>

definition kPassNameSeparator :: char where
  "kPassNameSeparator = CHR ''$''"

text \<open>Strip pass name suffix to get optimization name.\<close>

definition ConvertPassNameToOptimizationName :: "string \<Rightarrow> string" where
  "ConvertPassNameToOptimizationName name = takeWhile (\<lambda>ch. ch \<noteq> kPassNameSeparator) name"

definition fixed_optimizations :: "OptimizationDef list" where
  "fixed_optimizations =
     [OptDef kConstantFolding,
      OptDef kInstructionSimplifier,
      OptDefN kDeadCodeElimination ''dead_code_elimination$initial'',
      OptDef kInliner,
      OptDefD kConstantFolding ''constant_folding$after_inlining'' kInliner,
      OptDefD kInstructionSimplifier ''instruction_simplifier$after_inlining'' kInliner,
      OptDefD kDeadCodeElimination ''dead_code_elimination$after_inlining'' kInliner,
      OptDefN kSideEffectsAnalysis ''side_effects$before_gvn'',
      OptDef kGlobalValueNumbering,
      OptDef kSelectGenerator,
      OptDefN kConstantFolding ''constant_folding$after_gvn'',
      OptDefN kInstructionSimplifier ''instruction_simplifier$after_gvn'',
      OptDefN kDeadCodeElimination ''dead_code_elimination$after_gvn'',
      OptDefN kSideEffectsAnalysis ''side_effects$before_licm'',
      OptDef kInvariantCodeMotion,
      OptDef kInductionVarAnalysis,
      OptDef kBoundsCheckElimination,
      OptDef kLoopOptimization,
      OptDefN kConstantFolding ''constant_folding$after_bce'',
      OptDefN kAggressiveInstructionSimplifier ''instruction_simplifier$after_bce'',
      OptDef kLoadStoreElimination,
      OptDef kCHAGuardOptimization,
      OptDefN kDeadCodeElimination ''dead_code_elimination$final'',
      OptDef kCodeSinking,
      OptDefN kAggressiveInstructionSimplifier ''instruction_simplifier$before_codegen'',
      OptDef kConstructorFenceRedundancyElimination]"

text \<open>
  \<^verbatim>\<open>RunOptimizations(graph, codegen, dex_compilation_unit, pass_observer)\<close>: the passes
  named on the command line, or the built-in list followed by the architecture's.
\<close>

definition RunOptimizations :: "'g env \<Rightarrow> 'g compilation \<Rightarrow> fatal + 'g compilation" where
  "RunOptimizations env c =
     (case GetPassesToRun (options env) of
        Some pass_names \<Rightarrow>
          (let optimizations =
                 map (\<lambda>name. OptDefN (OptimizationPassByName (col env)
                                         (ConvertPassNameToOptimizationName name)) name)
                     pass_names
           in and_then (RunOptimizations_defs env optimizations c) (\<lambda>r. Inr (snd r)))
      | None \<Rightarrow>
          and_then (RunOptimizations_defs env fixed_optimizations c) (\<lambda>r1.
          and_then (RunArchOptimizations env (snd r1)) (\<lambda>r2. Inr (snd r2))))"

subsection \<open>Emission\<close>

text \<open>
  \<^verbatim>\<open>std::sort\<close> with a comparator. The order in which it leaves elements that compare
  equal is unspecified; this sort keeps them in their order, and the theorems below
  use no more of it than every sort gives: the same elements, in an order in which no
  element is followed by a smaller one.
\<close>

fun sort_insert :: "('a \<Rightarrow> 'a \<Rightarrow> bool) \<Rightarrow> 'a \<Rightarrow> 'a list \<Rightarrow> 'a list" where
  "sort_insert before x [] = [x]"
| "sort_insert before x (y # ys) =
     (if before y x then y # sort_insert before x ys else x # y # ys)"

definition std_sort :: "('a \<Rightarrow> 'a \<Rightarrow> bool) \<Rightarrow> 'a list \<Rightarrow> 'a list" where
  "std_sort before xs = foldr (sort_insert before) xs []"

definition EmitAndSortLinkerPatches :: "'g env \<Rightarrow> 'g \<Rightarrow> LinkerPatch list" where
  "EmitAndSortLinkerPatches env codegen =
     std_sort (\<lambda>lhs rhs. LiteralOffset lhs < LiteralOffset rhs)
       (EmitLinkerPatches (emi env) codegen)"

text \<open>
  What outlives one compilation: the trace, the thunk table of the compiled-method
  storage, the calls on the JIT code cache and the entry point of the method under
  JIT compilation.
\<close>

record world =
  w_trace :: "event list"
  thunks :: "nat \<rightharpoonup> (uint8_t list \<times> string)"
  code_cache :: "cache_call list"
  entry_point :: nat

text \<open>
  Modelled from the spec: \<^verbatim>\<open>CompiledMethodStorage\<close> is not part of this file. The spec
  has it as a shared thunk cache keyed by the patch's signature; a signature without
  an entry has the empty code.
\<close>

definition GetThunkCode :: "world \<Rightarrow> LinkerPatch \<Rightarrow> uint8_t list" where
  "GetThunkCode w patch =
     (case thunks w (ThunkSignature patch) of None \<Rightarrow> [] | Some blob \<Rightarrow> fst blob)"

definition SetThunkCode :: "LinkerPatch \<Rightarrow> uint8_t list \<Rightarrow> string \<Rightarrow> world \<Rightarrow> world" where
  "SetThunkCode patch code debug_name w =
     w\<lparr>thunks := (thunks w)(ThunkSignature patch \<mapsto> (code, debug_name)),
       w_trace := w_trace w @ [SetThunkCodeCall patch code debug_name]\<rparr>"

text \<open>
  Modelled from the spec: \<^verbatim>\<open>CompiledMethod::SwapAllocCompiledMethod\<close> packages the
  artifact from the instruction set, the code, the stack map, the call-frame
  information and the patches.
\<close>

definition SwapAllocCompiledMethod ::
  "InstructionSet \<Rightarrow> uint8_t list \<Rightarrow> uint8_t list \<Rightarrow> uint8_t list \<Rightarrow> LinkerPatch list
   \<Rightarrow> CompiledMethod" where
  "SwapAllocCompiledMethod isa code stack_map cfi patches =
     \<lparr>cm_instruction_set = isa, cm_code = code, cm_stack_map = stack_map, cm_cfi = cfi,
      cm_patches = patches, cm_intrinsic = False\<rparr>"

definition MarkAsIntrinsic :: "CompiledMethod \<Rightarrow> CompiledMethod" where
  "MarkAsIntrinsic m = m\<lparr>cm_intrinsic := True\<rparr>"

text \<open>The loop of \<^verbatim>\<open>Emit\<close> over the sorted patches.\<close>

fun Emit_thunks :: "'g env \<Rightarrow> 'g \<Rightarrow> LinkerPatch list \<Rightarrow> world \<Rightarrow> world" where
  "Emit_thunks env codegen [] w = w"
| "Emit_thunks env codegen (patch # rest) w =
     (if NeedsThunkCode (emi env) codegen patch \<and> GetThunkCode w patch = [] then
        (let code = fst (EmitThunkCode (emi env) codegen patch);
             debug_name = snd (EmitThunkCode (emi env) codegen patch)
         in Emit_thunks env codegen rest (SetThunkCode patch code debug_name w))
      else Emit_thunks env codegen rest w)"

definition Emit ::
  "'g env \<Rightarrow> 'g \<Rightarrow> CodeItem option \<Rightarrow> world \<Rightarrow> CompiledMethod \<times> world" where
  "Emit env codegen code_item_for_osr_check w =
     (let linker_patches = EmitAndSortLinkerPatches env codegen;
          stack_map = BuildStackMaps (emi env) codegen code_item_for_osr_check;
          compiled_method =
            SwapAllocCompiledMethod
              (Codegen_GetInstructionSet (emi env) codegen)
              (GetMemory (emi env) codegen)
              stack_map
              (GetCfi (emi env) codegen)
              linker_patches
      in (compiled_method, Emit_thunks env codegen linker_patches w))"


subsection \<open>TryCompile and TryCompileIntrinsic\<close>

text \<open>\<^verbatim>\<open>static constexpr size_t kSpaceFilterOptimizingThreshold = 128;\<close>\<close>

definition kSpaceFilterOptimizingThreshold :: nat where
  "kSpaceFilterOptimizingThreshold = 128"

text \<open>The statistic that the \<^verbatim>\<open>switch\<close> on a failed \<^verbatim>\<open>BuildGraph\<close> records.\<close>

fun BuildGraph_failure_stat :: "GraphAnalysisResult \<Rightarrow> MethodCompilationStat option" where
  "BuildGraph_failure_stat kAnalysisSkipped = Some kNotCompiledSkipped"
| "BuildGraph_failure_stat kAnalysisInvalidBytecode = Some kNotCompiledInvalidBytecode"
| "BuildGraph_failure_stat kAnalysisFailThrowCatchLoop = Some kNotCompiledThrowCatchLoop"
| "BuildGraph_failure_stat kAnalysisFailAmbiguousArrayOp = Some kNotCompiledAmbiguousArrayOp"
| "BuildGraph_failure_stat kAnalysisFailIrreducibleLoopAndStringInit =
     Some kNotCompiledIrreducibleLoopAndStringInit"
| "BuildGraph_failure_stat kAnalysisFailPhiEquivalentInOsr = Some kNotCompiledPhiEquivalentInOsr"
| "BuildGraph_failure_stat kAnalysisSuccess = None"

text \<open>
  \<^verbatim>\<open>TryCompile\<close> from the construction of the \<^verbatim>\<open>PassObserver\<close> on: building the
  graph, the optimizations, register allocation and code generation. Leaving the
  function runs the destructors of the open \<^verbatim>\<open>PassScope\<close> and of the observer.
\<close>

definition TryCompile_pipeline ::
  "'g env \<Rightarrow> CompilationKind \<Rightarrow> 'g \<Rightarrow> event list \<Rightarrow> fatal + ('g option \<times> event list)" where
  "TryCompile_pipeline env compilation_kind codegen tr =
     (let c0 = PassObserver_new env codegen tr;
          c1 = StartPass kBuilderPassName c0;
          result = fst (BuildGraph (col env) (graph c1));
          c2 = emit (BuildGraphCall result) (c1\<lparr>graph := snd (BuildGraph (col env) (graph c1))\<rparr>)
      in if result \<noteq> kAnalysisSuccess then
           (let c3 = (case BuildGraph_failure_stat result of
                        Some stat \<Rightarrow> emit (MaybeRecordStat stat) c2
                      | None \<Rightarrow> c2);
                c4 = SetGraphInBadState c3
            in and_then (EndPass env kBuilderPassName True c4) (\<lambda>c5.
               Inr (None, PassObserver_delete env c5)))
         else
           and_then (EndPass env kBuilderPassName True c2) (\<lambda>c3.
           and_then (if compilation_kind = kBaseline
                     then and_then (RunBaselineOptimizations env c3) (\<lambda>r. Inr (snd r))
                     else RunOptimizations env c3) (\<lambda>c4.
           and_then (AllocateRegisters env (GetRegisterAllocationStrategy (options env)) c4) (\<lambda>c5.
             let c6 = emit CodegenCompile (c5\<lparr>graph := Codegen_Compile (col env) (graph c5)\<rparr>);
                 c7 = DumpDisassembly c6;
                 c8 = emit (MaybeRecordStat kCompiledBytecode) c7
             in Inr (Some (graph c8), PassObserver_delete env c8)))))"

text \<open>
  \<^verbatim>\<open>TryCompile\<close>: the three rejections, in the order of the source, then the graph and
  its code generator. \<open>HGraph_new\<close> stands for the graph as lines 801 to 823 set it up
  (constructor, \<^verbatim>\<open>SetArtMethod\<close>, \<^verbatim>\<open>SetProfilingInfo\<close>).
\<close>

definition TryCompile ::
  "'g env \<Rightarrow> CodeItem \<Rightarrow> ArtMethod option \<Rightarrow> CompilationKind \<Rightarrow> event list
   \<Rightarrow> fatal + ('g option \<times> event list)" where
  "TryCompile env code_item method compilation_kind tr0 =
     (let tr = tr0 @ [MaybeRecordStat kAttemptBytecodeCompilation];
          instruction_set = GetInstructionSet (options env)
      in if \<not> IsInstructionSetSupported instruction_set then
           Inr (None, tr @ [MaybeRecordStat kNotCompiledUnsupportedIsa])
         else if IsPathologicalCase (rt env) code_item then
           Inr (None, tr @ [MaybeRecordStat kNotCompiledPathological])
         else if GetCompilerFilter (options env) = kSpace
                 \<and> InsnsSizeInCodeUnits code_item > kSpaceFilterOptimizingThreshold then
           Inr (None, tr @ [MaybeRecordStat kNotCompiledSpaceFilter])
         else
           (let dead_reference_safe =
                  (case method of
                     Some m \<Rightarrow> HasDeadReferenceSafeAnnotation (rt env)
                               \<and> \<not> MethodContainsRSensitiveAccess (rt env)
                   | None \<Rightarrow> False);
                hgraph = HGraph_new (col env) dead_reference_safe compilation_kind method;
                tr1 = tr @ [NewHGraph dead_reference_safe compilation_kind]
            in case CodeGenerator_Create (col env) hgraph of
                 None \<Rightarrow>
                   Inr (None, tr1 @ [CodeGeneratorCreate False,
                                     MaybeRecordStat kNotCompiledNoCodegen])
               | Some codegen \<Rightarrow>
                   TryCompile_pipeline env compilation_kind codegen
                     (tr1 @ [CodeGeneratorCreate True])))"

text \<open>
  \<^verbatim>\<open>TryCompileIntrinsic\<close> from the construction of the \<^verbatim>\<open>PassObserver\<close> up to and
  including \<^verbatim>\<open>AllocateRegisters\<close>.
\<close>

definition TryCompileIntrinsic_allocated ::
  "'g env \<Rightarrow> ArtMethod \<Rightarrow> 'g \<Rightarrow> event list \<Rightarrow> fatal + 'g compilation" where
  "TryCompileIntrinsic_allocated env method codegen tr =
     (let c0 = PassObserver_new env codegen tr;
          c1 = StartPass kBuilderPassName c0;
          c2 = emit BuildIntrinsicGraphCall
                 (c1\<lparr>graph := BuildIntrinsicGraph (col env) method (graph c1)\<rparr>)
      in and_then (EndPass env kBuilderPassName True c2) (\<lambda>c3.
         and_then (RunOptimizations_defs env [OptDef kInstructionSimplifier] c3) (\<lambda>r1.
         and_then (RunArchOptimizations env (snd r1)) (\<lambda>r2.
         AllocateRegisters env (GetRegisterAllocationStrategy (options env)) (snd r2)))))"

definition TryCompileIntrinsic ::
  "'g env \<Rightarrow> ArtMethod \<Rightarrow> event list \<Rightarrow> fatal + ('g option \<times> event list)" where
  "TryCompileIntrinsic env method tr0 =
     (let tr = tr0 @ [MaybeRecordStat kAttemptIntrinsicCompilation];
          instruction_set = GetInstructionSet (options env)
      in if \<not> IsInstructionSetSupported instruction_set then Inr (None, tr)
         else
           (let hgraph = HGraph_new (col env) True kOptimized (Some method);
                tr1 = tr @ [NewHGraph True kOptimized]
            in case CodeGenerator_Create (col env) hgraph of
                 None \<Rightarrow> Inr (None, tr1 @ [CodeGeneratorCreate False])
               | Some codegen \<Rightarrow>
                   and_then (TryCompileIntrinsic_allocated env method codegen
                               (tr1 @ [CodeGeneratorCreate True])) (\<lambda>c.
                     if \<not> IsLeafMethod (col env) (graph c) then
                       Inr (None, PassObserver_delete env c)
                     else
                       (let c1 = emit CodegenCompile
                                   (c\<lparr>graph := Codegen_Compile (col env) (graph c)\<rparr>);
                            c2 = DumpDisassembly c1;
                            c3 = emit (MaybeRecordStat kCompiledIntrinsic) c2
                        in Inr (Some (graph c3), PassObserver_delete env c3)))))"

subsection \<open>Compile and JniCompile\<close>

text \<open>
  \<^verbatim>\<open>OptimizingCompiler::Compile\<close>. The three stages: the intrinsic attempt, the general
  attempt when there is no code generator yet, and the emission.
\<close>

definition Compile_intrinsic_attempt ::
  "'g env \<Rightarrow> ArtMethod option \<Rightarrow> event list \<Rightarrow> fatal + ('g option \<times> bool \<times> event list)" where
  "Compile_intrinsic_attempt env method tr =
     (case method of
        None \<Rightarrow> Inr (None, False, tr)
      | Some m \<Rightarrow>
          if IsIntrinsic m then
            and_then (TryCompileIntrinsic env m tr) (\<lambda>r.
              Inr (fst r, fst r \<noteq> None, snd r))
          else Inr (None, False, tr))"

definition Compile ::
  "'g env \<Rightarrow> CodeItem \<Rightarrow> world \<Rightarrow> fatal + (CompiledMethod option \<times> world)" where
  "Compile env code_item w =
     (let method = ResolveMethod (rt env) in
      and_then (Compile_intrinsic_attempt env method (w_trace w)) (\<lambda>a.
        let compiled_intrinsic = fst (snd a) in
        and_then (case fst a of
                    None \<Rightarrow>
                      TryCompile env code_item method
                        (if IsBaseline (options env) then kBaseline else kOptimized)
                        (snd (snd a))
                  | Some codegen \<Rightarrow> Inr (Some codegen, snd (snd a))) (\<lambda>b.
          case fst b of
            None \<Rightarrow> Inr (None, w\<lparr>w_trace := snd b\<rparr>)
          | Some codegen \<Rightarrow>
              (let e = Emit env codegen (if compiled_intrinsic then None else Some code_item)
                         (w\<lparr>w_trace := snd b\<rparr>);
                   compiled_method =
                     (if compiled_intrinsic then MarkAsIntrinsic (fst e) else fst e)
               in Inr (Some compiled_method, snd e)))))"

definition CreateJniStackMap ::
  "'g env \<Rightarrow> JniCompiledMethod \<Rightarrow> nat \<Rightarrow> bool \<Rightarrow> uint8_t list" where
  "CreateJniStackMap env jni_compiled_method code_size debuggable =
     StackMapStream_Encode (rt env)
       \<lparr>sms_instruction_set = jni_instruction_set jni_compiled_method,
        sms_frame_size = jni_frame_size jni_compiled_method,
        sms_core_spill_mask = jni_core_spill_mask jni_compiled_method,
        sms_fp_spill_mask = jni_fp_spill_mask jni_compiled_method,
        sms_num_dex_registers = 0,
        sms_baseline = False,
        sms_debuggable = debuggable,
        sms_code_size = code_size\<rparr>"

text \<open>The generic JNI stub of \<^verbatim>\<open>JniCompile\<close>, from \<^verbatim>\<open>ArtQuickJniCompileMethod\<close> on.\<close>

definition JniCompile_stub :: "'g env \<Rightarrow> world \<Rightarrow> CompiledMethod \<times> world" where
  "JniCompile_stub env w =
     (let jni_compiled_method = ArtQuickJniCompileMethod (rt env);
          w1 = w\<lparr>w_trace := w_trace w @ [MaybeRecordStat kCompiledNativeStub]\<rparr>;
          stack_map =
            CreateJniStackMap env jni_compiled_method
              (length (jni_code jni_compiled_method))
              (GetDebuggable (options env) \<and> IsJitCompiler (options env))
      in (SwapAllocCompiledMethod
            (jni_instruction_set jni_compiled_method)
            (jni_code jni_compiled_method)
            stack_map
            (jni_cfi jni_compiled_method)
            [],
          w1))"

definition JniCompile :: "'g env \<Rightarrow> world \<Rightarrow> fatal + (CompiledMethod \<times> world)" where
  "JniCompile env w =
     (if IsBootImage (options env) then
        (case LookupResolvedMethod (rt env) of
           None \<Rightarrow> Inr (JniCompile_stub env w)
         | Some method \<Rightarrow>
             if IsIntrinsic method \<and> \<not> IsSignaturePolymorphic method then
               and_then (TryCompileIntrinsic env method (w_trace w)) (\<lambda>r.
                 case fst r of
                   Some codegen \<Rightarrow>
                     (let e = Emit env codegen None (w\<lparr>w_trace := snd r\<rparr>)
                      in Inr (MarkAsIntrinsic (fst e), snd e))
                 | None \<Rightarrow> Inr (JniCompile_stub env (w\<lparr>w_trace := snd r\<rparr>)))
             else Inr (JniCompile_stub env w))
      else Inr (JniCompile_stub env w))"


subsection \<open>JitCompile and the code cache\<close>

text \<open>
  Modelled from the spec: \<^verbatim>\<open>JitCodeCache\<close> is not part of this file. The spec has
  \<^verbatim>\<open>Reserve\<close> hand out a code extent and a data extent or fail, \<^verbatim>\<open>Commit\<close>
  publish the filled extents so that the method's entry point points at them, or
  fail and publish nothing, and \<^verbatim>\<open>Free\<close> return both extents with no further
  observable effect. Whether a call succeeds is the environment's.
\<close>

definition Reserve ::
  "'g env \<Rightarrow> nat \<Rightarrow> nat \<Rightarrow> nat \<Rightarrow> world \<Rightarrow> (ArrayRef \<times> ArrayRef) option \<times> world" where
  "Reserve env code_size stack_map_size number_of_roots w =
     (let r = Reserve_result (rt env) code_size stack_map_size number_of_roots
      in (r, w\<lparr>code_cache := code_cache w
                   @ [ReserveCall code_size stack_map_size number_of_roots r]\<rparr>))"

definition Commit :: "'g env \<Rightarrow> CommitArgs \<Rightarrow> world \<Rightarrow> bool \<times> world" where
  "Commit env args w =
     (let ok = Commit_result (rt env) args
      in (ok, w\<lparr>code_cache := code_cache w @ [CommitCall args ok],
                 entry_point :=
                   (if ok then data (arg_reserved_code args) + InstructionAlignedSize (rt env)
                    else entry_point w)\<rparr>))"

definition Free :: "nat \<Rightarrow> nat \<Rightarrow> world \<Rightarrow> world" where
  "Free code_ptr data_ptr w = w\<lparr>code_cache := code_cache w @ [FreeCall code_ptr data_ptr]\<rparr>"

definition GenerateJitDebugInfo :: "'g env \<Rightarrow> MethodDebugInfo \<Rightarrow> uint8_t list" where
  "GenerateJitDebugInfo env info =
     (if GenerateAnyDebugInfo (options env) then
        (let mini_debug_info = \<not> GetGenerateDebugInfo (options env)
         in MakeElfFileForJIT (rt env) (GetInstructionSet (options env)) mini_debug_info info)
      else [])"

text \<open>The branch of \<^verbatim>\<open>JitCompile\<close> for a native method.\<close>

definition JitCompile_native ::
  "'g env \<Rightarrow> ArtMethod \<Rightarrow> CompilationKind \<Rightarrow> bool \<Rightarrow> world \<Rightarrow> bool \<times> world" where
  "JitCompile_native env method compilation_kind jit_logger w =
     (if IsJavaDebuggable (rt env) \<and> IsCriticalNative method then (False, w)
      else
        (let jni_compiled_method = ArtQuickJniCompileMethod (rt env);
             stack_map =
               CreateJniStackMap env jni_compiled_method
                 (length (jni_code jni_compiled_method))
                 (GetDebuggable (options env) \<and> IsJitCompiler (options env));
             reserved = Reserve env (length (jni_code jni_compiled_method)) (length stack_map) 0 w
         in case fst reserved of
              None \<Rightarrow>
                (False, (snd reserved)\<lparr>w_trace := w_trace (snd reserved)
                                          @ [MaybeRecordStat kJitOutOfMemoryForCommit]\<rparr>)
            | Some extents \<Rightarrow>
                (let reserved_code = fst extents;
                     reserved_data = snd extents;
                     code = data reserved_code + InstructionAlignedSize (rt env);
                     debug_info =
                       (if GenerateAnyDebugInfo (options env) then
                          GenerateJitDebugInfo env
                            \<lparr>info_custom_name = ''art_jni_trampoline'',
                             info_isa = jni_instruction_set jni_compiled_method,
                             info_is_native_debuggable = GetNativeDebuggable (options env),
                             info_code_address = code,
                             info_code_size = length (jni_code jni_compiled_method),
                             info_frame_size_in_bytes = jni_frame_size jni_compiled_method,
                             info_code_info = None,
                             info_cfi = jni_cfi jni_compiled_method\<rparr>
                        else []);
                     committed =
                       Commit env
                         \<lparr>arg_reserved_code = reserved_code,
                          arg_code = jni_code jni_compiled_method,
                          arg_reserved_data = reserved_data,
                          arg_roots = [],
                          arg_stack_map = stack_map,
                          arg_debug_info = debug_info,
                          arg_is_full_debug_info = GetGenerateDebugInfo (options env),
                          arg_compilation_kind = compilation_kind,
                          arg_has_should_deoptimize_flag = False,
                          arg_cha_single_implementation_list = []\<rparr>
                         (snd reserved)
                 in if \<not> fst committed then
                      (False, Free (data reserved_code) (data reserved_data) (snd committed))
                    else
                      (let w3 = (snd committed)\<lparr>w_trace := w_trace (snd committed)
                                                   @ [AddMemoryUsage (BytesUsed (rt env))]\<rparr>;
                           w4 = (if jit_logger
                                 then w3\<lparr>w_trace := w_trace w3
                                           @ [WriteLog code (length (jni_code jni_compiled_method))]\<rparr>
                                 else w3)
                       in (True, w4)))))"

text \<open>The rest of \<^verbatim>\<open>JitCompile\<close>, once \<^verbatim>\<open>TryCompile\<close> has returned a code generator.\<close>

definition JitCompile_commit ::
  "'g env \<Rightarrow> CodeItem \<Rightarrow> CompilationKind \<Rightarrow> bool \<Rightarrow> 'g \<Rightarrow> world \<Rightarrow> bool \<times> world" where
  "JitCompile_commit env code_item compilation_kind jit_logger codegen w =
     (let stack_map = BuildStackMaps (emi env) codegen (Some code_item);
          reserved = Reserve env (length (GetMemory (emi env) codegen)) (length stack_map)
                       (GetNumberOfJitRoots (emi env) codegen) w
      in case fst reserved of
           None \<Rightarrow>
             (False, (snd reserved)\<lparr>w_trace := w_trace (snd reserved)
                                       @ [MaybeRecordStat kJitOutOfMemoryForCommit]\<rparr>)
         | Some extents \<Rightarrow>
             (let reserved_code = fst extents;
                  reserved_data = snd extents;
                  code = data reserved_code + InstructionAlignedSize (rt env);
                  roots_data = data reserved_data;
                  rooted = EmitJitRoots (emi env) codegen roots_data;
                  codegen1 = fst rooted;
                  roots = snd rooted;
                  debug_info =
                    (if GenerateAnyDebugInfo (options env) then
                       GenerateJitDebugInfo env
                         \<lparr>info_custom_name = [],
                          info_isa = Codegen_GetInstructionSet (emi env) codegen1,
                          info_is_native_debuggable = GetNativeDebuggable (options env),
                          info_code_address = code,
                          info_code_size = length (GetMemory (emi env) codegen1),
                          info_frame_size_in_bytes = GetFrameSize (emi env) codegen1,
                          info_code_info = (if length stack_map = 0 then None else Some stack_map),
                          info_cfi = GetCfi (emi env) codegen1\<rparr>
                     else []);
                  committed =
                    Commit env
                      \<lparr>arg_reserved_code = reserved_code,
                       arg_code = GetMemory (emi env) codegen1,
                       arg_reserved_data = reserved_data,
                       arg_roots = roots,
                       arg_stack_map = stack_map,
                       arg_debug_info = debug_info,
                       arg_is_full_debug_info = GetGenerateDebugInfo (options env),
                       arg_compilation_kind = compilation_kind,
                       arg_has_should_deoptimize_flag = HasShouldDeoptimizeFlag (emi env) codegen1,
                       arg_cha_single_implementation_list =
                         GetCHASingleImplementationList (emi env) codegen1\<rparr>
                      (snd reserved)
              in if \<not> fst committed then
                   (False, Free (data reserved_code) (data reserved_data) (snd committed))
                 else
                   (let w3 = (snd committed)\<lparr>w_trace := w_trace (snd committed)
                                                @ [AddMemoryUsage (BytesUsed (rt env))]\<rparr>;
                        w4 = (if jit_logger
                              then w3\<lparr>w_trace := w_trace w3
                                        @ [WriteLog code (length (GetMemory (emi env) codegen1))]\<rparr>
                              else w3)
                    in (True, w4))))"

definition JitCompile ::
  "'g env \<Rightarrow> ArtMethod \<Rightarrow> CodeItem \<Rightarrow> CompilationKind \<Rightarrow> bool \<Rightarrow> world
   \<Rightarrow> fatal + (bool \<times> world)" where
  "JitCompile env method code_item compilation_kind jit_logger w =
     (if IsNative method then Inr (JitCompile_native env method compilation_kind jit_logger w)
      else
        and_then (TryCompile env code_item (Some method) compilation_kind (w_trace w)) (\<lambda>r.
          case fst r of
            None \<Rightarrow> Inr (False, w\<lparr>w_trace := snd r\<rparr>)
          | Some codegen \<Rightarrow>
              Inr (JitCompile_commit env code_item compilation_kind jit_logger codegen
                     (w\<lparr>w_trace := snd r\<rparr>))))"

subsection \<open>Properties of patch lists\<close>

text \<open>
  A patch list is ascending when no patch is followed by one with a smaller literal
  offset, and strictly ascending when every patch is followed by one with a greater
  literal offset.
\<close>

fun ascending :: "LinkerPatch list \<Rightarrow> bool" where
  "ascending [] = True"
| "ascending [p] = True"
| "ascending (p # q # rest) = (LiteralOffset p \<le> LiteralOffset q \<and> ascending (q # rest))"

fun strictly_ascending :: "LinkerPatch list \<Rightarrow> bool" where
  "strictly_ascending [] = True"
| "strictly_ascending [p] = True"
| "strictly_ascending (p # q # rest) =
     (LiteralOffset p < LiteralOffset q \<and> strictly_ascending (q # rest))"


subsection \<open>What a run leaves behind\<close>

text \<open>The trace of a run of the pass loop, whether it ended normally or in \<^verbatim>\<open>LOG(FATAL)\<close>.\<close>

fun fatal_trace :: "fatal \<Rightarrow> event list" where
  "fatal_trace (GraphInvalidAfter name tr) = tr"

definition loop_trace :: "fatal + 'g pass_loop \<Rightarrow> event list" where
  "loop_trace r = (case r of Inl f \<Rightarrow> fatal_trace f | Inr s \<Rightarrow> trace (comp s))"


text \<open>The trace of any step that may end in \<^verbatim>\<open>LOG(FATAL)\<close>.\<close>

definition result_trace :: "('a \<Rightarrow> event list) \<Rightarrow> fatal + 'a \<Rightarrow> event list" where
  "result_trace proj r = (case r of Inl f \<Rightarrow> fatal_trace f | Inr x \<Rightarrow> proj x)"

definition outcome_trace :: "fatal + ('a \<times> event list) \<Rightarrow> event list" where
  "outcome_trace r = result_trace snd r"

text \<open>The trace \<open>tr'\<close> continues the trace \<open>tr\<close> without adding the event \<open>e\<close>.\<close>

definition adds_no :: "event \<Rightarrow> event list \<Rightarrow> event list \<Rightarrow> bool" where
  "adds_no e tr tr' = (take (length tr) tr' = tr \<and> e \<notin> set (drop (length tr) tr'))"

text \<open>The calls on the code cache that a run from \<open>w\<close> to \<open>w'\<close> has added.\<close>

definition new_cache_calls :: "world \<Rightarrow> world \<Rightarrow> cache_call list" where
  "new_cache_calls w w' = drop (length (code_cache w)) (code_cache w')"


text \<open>
  The registrations of thunk code under the signature \<open>k\<close> that a run from \<open>w\<close> to
  \<open>w'\<close> has added to the trace.
\<close>

fun is_registration :: "nat \<Rightarrow> event \<Rightarrow> bool" where
  "is_registration k (SetThunkCodeCall patch code debug_name) = (ThunkSignature patch = k)"
| "is_registration k other = False"

definition registrations :: "nat \<Rightarrow> world \<Rightarrow> world \<Rightarrow> event list" where
  "registrations k w w' = filter (is_registration k) (drop (length (w_trace w)) (w_trace w'))"


section \<open>Example environments\<close>

text \<open>
  Concrete inputs at which the theorems below are instantiated. The graph is a counter
  of the operations applied to it. The example environment is a debug build on arm64
  under the space filter, with a method on the verbose list, a checker that accepts every
  graph, a code cache whose \<^verbatim>\<open>Reserve\<close> succeeds and whose \<^verbatim>\<open>Commit\<close> fails, and a
  pathological-size heuristic that rejects 16383 code units or more.
\<close>

definition opts_ex :: CompilerOptions where
  "opts_ex = \<lparr>GetInstructionSet = kArm64, GetCompilerFilter = kSpace, GetDumpPassTimings = True,
     GetDumpCfgFileName = [], verbose_methods = Some [''void Main.run()''],
     GetPassesToRun = None, GetRegisterAllocationStrategy = 0, GetDebuggable = False,
     GetNativeDebuggable = False, GetGenerateDebugInfo = False, GenerateAnyDebugInfo = False,
     IsBootImage = False, IsBaseline = False, IsJitCompiler = False\<rparr>"

definition col_ex :: "nat Collaborators" where
  "col_ex =
     \<lparr>HGraph_new = (\<lambda>dead_reference_safe kind method. 0),
      CodeGenerator_Create = (\<lambda>g. Some g),
      BuildGraph = (\<lambda>g. (kAnalysisSuccess, g + 1)),
      BuildIntrinsicGraph = (\<lambda>method g. g + 1),
      ConstructOptimizations =
        map (\<lambda>d. \<lparr>GetPassName = (case pass_name d of Some n \<Rightarrow> n | None \<Rightarrow> ''pass''),
                   Run = (\<lambda>g. (False, g))\<rparr>),
      OptimizationPassByName = (\<lambda>name. kConstantFolding),
      checker_Run = (\<lambda>g pass_change last_seen. g),
      checker_IsValid = (\<lambda>g pass_change last_seen. True),
      PrepareForRegisterAllocation_Run = (\<lambda>g. g),
      SsaLivenessAnalysis_Analyze = (\<lambda>g. g),
      RegisterAllocator_AllocateRegisters = (\<lambda>strategy g. g),
      IsLeafMethod = (\<lambda>g. True),
      Codegen_Compile = (\<lambda>g. g)\<rparr>"

definition emi_ex :: "nat Emitter" where
  "emi_ex =
     \<lparr>GetMemory = (\<lambda>g. [1, 2, 3, 4]),
      EmitLinkerPatches =
        (\<lambda>g. [\<lparr>LiteralOffset = 8, ThunkSignature = 7\<rparr>,
               \<lparr>LiteralOffset = 4, ThunkSignature = 7\<rparr>]),
      BuildStackMaps = (\<lambda>g item. [5]),
      GetCfi = (\<lambda>g. []),
      Codegen_GetInstructionSet = (\<lambda>g. kArm64),
      NeedsThunkCode = (\<lambda>g patch. True),
      EmitThunkCode = (\<lambda>g patch. ([9, 9], ''thunk'')),
      GetNumberOfJitRoots = (\<lambda>g. 0),
      EmitJitRoots = (\<lambda>g roots_data. (g, [])),
      GetFrameSize = (\<lambda>g. 16),
      HasShouldDeoptimizeFlag = (\<lambda>g. False),
      GetCHASingleImplementationList = (\<lambda>g. [])\<rparr>"

definition jni_ex :: JniCompiledMethod where
  "jni_ex = \<lparr>jni_instruction_set = kArm64, jni_code = [1, 2], jni_frame_size = 16,
             jni_core_spill_mask = 0, jni_fp_spill_mask = 0, jni_cfi = []\<rparr>"

definition rt_ex :: RuntimeEnv where
  "rt_ex =
     \<lparr>kIsDebugBuild = True,
      ART_ENABLE_CODEGEN_arm = False,
      ART_ENABLE_CODEGEN_arm64 = False,
      ART_ENABLE_CODEGEN_x86 = False,
      ART_ENABLE_CODEGEN_x86_64 = False,
      GetMethodName = ''void Main.run()'',
      IsPathologicalCase = (\<lambda>item. 16383 \<le> InsnsSizeInCodeUnits item),
      HasDeadReferenceSafeAnnotation = False,
      MethodContainsRSensitiveAccess = False,
      ResolveMethod = None,
      LookupResolvedMethod = None,
      ArtQuickJniCompileMethod = jni_ex,
      StackMapStream_Encode = (\<lambda>stream. [6]),
      IsJavaDebuggable = False,
      Reserve_result =
        (\<lambda>code_size stack_map_size number_of_roots.
           Some (\<lparr>data = 4096, size_of = code_size\<rparr>, \<lparr>data = 8192, size_of = stack_map_size\<rparr>)),
      Commit_result = (\<lambda>args. False),
      InstructionAlignedSize = 32,
      MakeElfFileForJIT = (\<lambda>isa mini info. []),
      BytesUsed = 100\<rparr>"

definition env_ex :: "nat env" where
  "env_ex = \<lparr>options = opts_ex, rt = rt_ex, col = col_ex, emi = emi_ex\<rparr>"

text \<open>A code generator that emits two patches at the same literal offset.\<close>

definition env_dup :: "nat env" where
  "env_dup =
     env_ex\<lparr>emi := emi_ex\<lparr>EmitLinkerPatches :=
       (\<lambda>g. [\<lparr>LiteralOffset = 4, ThunkSignature = 1\<rparr>,
              \<lparr>LiteralOffset = 4, ThunkSignature = 2\<rparr>])\<rparr>\<rparr>"

definition world_ex :: world where
  "world_ex = \<lparr>w_trace = [], thunks = Map.empty, code_cache = [], entry_point = 0\<rparr>"

definition opt_ex :: "string \<Rightarrow> bool \<Rightarrow> nat HOptimization" where
  "opt_ex name changes = \<lparr>GetPassName = name, Run = (\<lambda>g. (changes, g + 1))\<rparr>"

definition comp_ex :: "nat compilation" where
  "comp_ex = \<lparr>graph = 0, last_seen_graph_size = 0, timing_logger_enabled = False,
              visualizer_enabled = False, graph_in_bad_state = False, trace = []\<rparr>"

definition item_ex :: "nat \<Rightarrow> CodeItem" where
  "item_ex n = \<lparr>InsnsSizeInCodeUnits = n\<rparr>"

text \<open>The example environment on an instruction set the compiler does not support.\<close>

definition env_unsupported :: "nat env" where
  "env_unsupported = env_ex\<lparr>options := opts_ex\<lparr>GetInstructionSet := kUnsupportedIsa\<rparr>\<rparr>"

definition native_method_ex :: ArtMethod where
  "native_method_ex = \<lparr>IsIntrinsic = False, IsSignaturePolymorphic = False, IsNative = True,
                       IsCriticalNative = False\<rparr>"

definition intrinsic_method_ex :: ArtMethod where
  "intrinsic_method_ex = \<lparr>IsIntrinsic = True, IsSignaturePolymorphic = False, IsNative = False,
                          IsCriticalNative = False\<rparr>"

text \<open>An intrinsic whose generated code calls out: the code generator is not a leaf.\<close>

definition env_non_leaf :: "nat env" where
  "env_non_leaf =
     env_ex\<lparr>options := opts_ex\<lparr>GetPassesToRun := Some [], GetDumpPassTimings := False\<rparr>,
            rt := rt_ex\<lparr>ResolveMethod := Some intrinsic_method_ex\<rparr>,
            col := col_ex\<lparr>IsLeafMethod := (\<lambda>g. False)\<rparr>\<rparr>"

definition patch_ex :: LinkerPatch where
  "patch_ex = \<lparr>LiteralOffset = 4, ThunkSignature = 7\<rparr>"

definition plain_method_ex :: ArtMethod where
  "plain_method_ex = \<lparr>IsIntrinsic = False, IsSignaturePolymorphic = False, IsNative = False,
                      IsCriticalNative = False\<rparr>"

text \<open>The example environment with an empty list of passes and no pass timings.\<close>

definition env_jit :: "nat env" where
  "env_jit =
     env_ex\<lparr>options := opts_ex\<lparr>GetPassesToRun := Some [], GetDumpPassTimings := False\<rparr>\<rparr>"


section \<open>The commit protocol of JitCompile\<close>

lemma JitCompile_native_commit_failure:
  assumes "JitCompile_native env method kind logger w = (r, w')"
    and "ReserveCall cs ss nr (Some (rc, rd)) \<in> set (new_cache_calls w w')"
    and "CommitCall args False \<in> set (new_cache_calls w w')"
  shows "\<not> r
     \<and> new_cache_calls w w' =
         [ReserveCall cs ss nr (Some (rc, rd)), CommitCall args False, FreeCall (data rc) (data rd)]
     \<and> arg_reserved_code args = rc \<and> arg_reserved_data args = rd
     \<and> entry_point w' = entry_point w"
  using assms
  by (auto simp: JitCompile_native_def new_cache_calls_def Reserve_def Commit_def Free_def Let_def
      split: if_splits option.splits)

lemma JitCompile_commit_commit_failure:
  assumes "JitCompile_commit env item kind logger codegen w = (r, w')"
    and "ReserveCall cs ss nr (Some (rc, rd)) \<in> set (new_cache_calls w w')"
    and "CommitCall args False \<in> set (new_cache_calls w w')"
  shows "\<not> r
     \<and> new_cache_calls w w' =
         [ReserveCall cs ss nr (Some (rc, rd)), CommitCall args False, FreeCall (data rc) (data rd)]
     \<and> arg_reserved_code args = rc \<and> arg_reserved_data args = rd
     \<and> entry_point w' = entry_point w"
  using assms
  by (auto simp: JitCompile_commit_def new_cache_calls_def Reserve_def Commit_def Free_def Let_def
      split: if_splits option.splits)

text \<open>
  Claim C1. In every run of \<^verbatim>\<open>JitCompile\<close>, on the native-method path as on the bytecode
  path, in which \<^verbatim>\<open>Reserve\<close> succeeds and \<^verbatim>\<open>Commit\<close> fails, the calls on the code cache
  are exactly the \<^verbatim>\<open>Reserve\<close>, the \<^verbatim>\<open>Commit\<close> of the reserved extents and one \<^verbatim>\<open>Free\<close> of
  the same two extents; the function returns false and the entry point of the method is
  what it was.
\<close>

theorem JitCompile_failed_commit_frees:
  assumes "JitCompile env method item kind logger w = Inr (r, w')"
    and "ReserveCall cs ss nr (Some (rc, rd)) \<in> set (new_cache_calls w w')"
    and "CommitCall args False \<in> set (new_cache_calls w w')"
  shows "\<not> r
     \<and> new_cache_calls w w' =
         [ReserveCall cs ss nr (Some (rc, rd)), CommitCall args False, FreeCall (data rc) (data rd)]
     \<and> arg_reserved_code args = rc \<and> arg_reserved_data args = rd
     \<and> entry_point w' = entry_point w"
proof (cases "IsNative method")
  case True
  with assms(1) have "JitCompile_native env method kind logger w = (r, w')"
    by (simp add: JitCompile_def)
  then show ?thesis using assms(2,3) by (rule JitCompile_native_commit_failure)
next
  case False
  with assms(1) obtain res where
    tried: "TryCompile env item (Some method) kind (w_trace w) = Inr res"
    and rest: "(case fst res of
                 None \<Rightarrow> Inr (False, w\<lparr>w_trace := snd res\<rparr>)
               | Some codegen \<Rightarrow>
                   Inr (JitCompile_commit env item kind logger codegen (w\<lparr>w_trace := snd res\<rparr>)))
             = (Inr (r, w') :: fatal + bool \<times> world)"
    by (auto simp: JitCompile_def and_then_def split: sum.splits)
  show ?thesis
  proof (cases "fst res")
    case None
    with rest have "w' = w\<lparr>w_trace := snd res\<rparr>" by simp
    with assms(2) show ?thesis by (simp add: new_cache_calls_def)
  next
    case (Some codegen)
    let ?w1 = "w\<lparr>w_trace := snd res\<rparr>"
    from Some rest have run: "JitCompile_commit env item kind logger codegen ?w1 = (r, w')"
      by simp
    have same: "new_cache_calls ?w1 w' = new_cache_calls w w'"
      by (simp add: new_cache_calls_def)
    from JitCompile_commit_commit_failure [OF run, of cs ss nr rc rd args] assms(2,3) same
    show ?thesis by simp
  qed
qed

theorem JitCompile_failed_commit_frees_witness:
  "JitCompile env_ex native_method_ex (item_ex 10) kOptimized False world_ex =
     Inr (False,
          world_ex\<lparr>code_cache :=
            [ReserveCall 2 1 0 (Some (\<lparr>data = 4096, size_of = 2\<rparr>, \<lparr>data = 8192, size_of = 1\<rparr>)),
             CommitCall
               \<lparr>arg_reserved_code = \<lparr>data = 4096, size_of = 2\<rparr>,
                arg_code = [1, 2],
                arg_reserved_data = \<lparr>data = 8192, size_of = 1\<rparr>,
                arg_roots = [],
                arg_stack_map = [6],
                arg_debug_info = [],
                arg_is_full_debug_info = False,
                arg_compilation_kind = kOptimized,
                arg_has_should_deoptimize_flag = False,
                arg_cha_single_implementation_list = []\<rparr> False,
             FreeCall 4096 8192]\<rparr>)
   \<and> JitCompile env_jit plain_method_ex (item_ex 10) kBaseline True world_ex =
     Inr (False,
          world_ex\<lparr>w_trace :=
            [MaybeRecordStat kAttemptBytecodeCompilation, NewHGraph False kBaseline,
             CodeGeneratorCreate True, BuildGraphCall kAnalysisSuccess,
             PrepareForRegisterAllocationRun, LivenessAnalyze, AllocateRegistersCall 0,
             CodegenCompile, MaybeRecordStat kCompiledBytecode],
           code_cache :=
            [ReserveCall 4 1 0 (Some (\<lparr>data = 4096, size_of = 4\<rparr>, \<lparr>data = 8192, size_of = 1\<rparr>)),
             CommitCall
               \<lparr>arg_reserved_code = \<lparr>data = 4096, size_of = 4\<rparr>,
                arg_code = [1, 2, 3, 4],
                arg_reserved_data = \<lparr>data = 8192, size_of = 1\<rparr>,
                arg_roots = [],
                arg_stack_map = [5],
                arg_debug_info = [],
                arg_is_full_debug_info = False,
                arg_compilation_kind = kBaseline,
                arg_has_should_deoptimize_flag = False,
                arg_cha_single_implementation_list = []\<rparr> False,
             FreeCall 4096 8192]\<rparr>)
   \<and> entry_point world_ex = 0"
proof -
  let ?reserve1 = "ReserveCall 2 1 0
      (Some (\<lparr>data = 4096, size_of = 2\<rparr>, \<lparr>data = 8192, size_of = 1\<rparr>))"
  let ?args1 = "\<lparr>arg_reserved_code = \<lparr>data = 4096, size_of = 2\<rparr>,
                arg_code = [1, 2],
                arg_reserved_data = \<lparr>data = 8192, size_of = 1\<rparr>,
                arg_roots = [],
                arg_stack_map = [6],
                arg_debug_info = [],
                arg_is_full_debug_info = False,
                arg_compilation_kind = kOptimized,
                arg_has_should_deoptimize_flag = False,
                arg_cha_single_implementation_list = []\<rparr>"
  let ?v1 = "world_ex\<lparr>code_cache := [?reserve1, CommitCall ?args1 False, FreeCall 4096 8192]\<rparr>"
  have run1: "JitCompile env_ex native_method_ex (item_ex 10) kOptimized False world_ex =
      Inr (False, ?v1)"
    by (simp add: JitCompile_def JitCompile_native_def native_method_ex_def env_ex_def rt_ex_def
        opts_ex_def jni_ex_def world_ex_def CreateJniStackMap_def Reserve_def Commit_def Free_def
        Let_def)
  have reserve1: "?reserve1 \<in> set (new_cache_calls world_ex ?v1)"
    by (simp add: new_cache_calls_def world_ex_def)
  have commit1: "CommitCall ?args1 False \<in> set (new_cache_calls world_ex ?v1)"
    by (simp add: new_cache_calls_def world_ex_def)
  let ?reserve2 = "ReserveCall 4 1 0
      (Some (\<lparr>data = 4096, size_of = 4\<rparr>, \<lparr>data = 8192, size_of = 1\<rparr>))"
  let ?args2 = "\<lparr>arg_reserved_code = \<lparr>data = 4096, size_of = 4\<rparr>,
                arg_code = [1, 2, 3, 4],
                arg_reserved_data = \<lparr>data = 8192, size_of = 1\<rparr>,
                arg_roots = [],
                arg_stack_map = [5],
                arg_debug_info = [],
                arg_is_full_debug_info = False,
                arg_compilation_kind = kBaseline,
                arg_has_should_deoptimize_flag = False,
                arg_cha_single_implementation_list = []\<rparr>"
  let ?v2 = "world_ex\<lparr>w_trace :=
            [MaybeRecordStat kAttemptBytecodeCompilation, NewHGraph False kBaseline,
             CodeGeneratorCreate True, BuildGraphCall kAnalysisSuccess,
             PrepareForRegisterAllocationRun, LivenessAnalyze, AllocateRegistersCall 0,
             CodegenCompile, MaybeRecordStat kCompiledBytecode],
           code_cache := [?reserve2, CommitCall ?args2 False, FreeCall 4096 8192]\<rparr>"
  have run2: "JitCompile env_jit plain_method_ex (item_ex 10) kBaseline True world_ex =
      Inr (False, ?v2)"
    by (simp add: JitCompile_def JitCompile_commit_def TryCompile_def TryCompile_pipeline_def
        PassObserver_new_def PassObserver_delete_def DumpDisassembly_def StartPass_def
        EndPass_def emit_def and_then_def RunBaselineOptimizations_def AllocateRegisters_def
        IsInstructionSetSupported_def kSpaceFilterOptimizingThreshold_def
        Reserve_def Commit_def Free_def
        plain_method_ex_def item_ex_def env_jit_def env_ex_def opts_ex_def rt_ex_def col_ex_def
        emi_ex_def world_ex_def Let_def)
  have reserve2: "?reserve2 \<in> set (new_cache_calls world_ex ?v2)"
    by (simp add: new_cache_calls_def world_ex_def)
  have commit2: "CommitCall ?args2 False \<in> set (new_cache_calls world_ex ?v2)"
    by (simp add: new_cache_calls_def world_ex_def)
  from JitCompile_failed_commit_frees [OF run1 reserve1 commit1]
       JitCompile_failed_commit_frees [OF run2 reserve2 commit2] run1 run2
  show ?thesis by (simp add: world_ex_def)
qed

section \<open>The pass loop of RunOptimizations\<close>

text \<open>
  The theorems of this section are about \<open>pass_loop_run\<close> on any list of definitions
  paired with their optimizations, from the initial bitset; \<open>RunOptimizations_defs\<close>
  runs it on the definitions it is given.
\<close>

lemma graph_StartPass [simp]: "graph (StartPass name c) = graph c"
  by (simp add: StartPass_def emit_def Let_def)

lemma pass_loop_body_skip:
  "\<not> pass_changes s (depends_on d) \<Longrightarrow>
   pass_loop_body env s (d, optimization) =
     Inr (s\<lparr>pass_changes := (pass_changes s)(pass d := False)\<rparr>)"
  by (simp add: pass_loop_body_def)

lemma pass_loop_body_entry:
  assumes "pass_loop_body env s (d, optimization) = Inr s'"
  shows "pass_changes s' (pass d) =
           (pass_changes s (depends_on d) \<and> fst (Run optimization (graph (comp s))))"
    and "q \<noteq> pass d \<Longrightarrow> pass_changes s' q = pass_changes s q"
  using assms
  by (auto simp: pass_loop_body_def Let_def split: if_splits sum.splits)

lemma pass_loop_run_other:
  "pass_loop_run env s ps = Inr s' \<Longrightarrow> \<forall>p \<in> set ps. pass (fst p) \<noteq> q \<Longrightarrow>
   pass_changes s' q = pass_changes s q"
proof (induction ps arbitrary: s)
  case Nil
  then show ?case by simp
next
  case (Cons p ps)
  from Cons.prems(1) obtain s1 where
    body: "pass_loop_body env s p = Inr s1" and rest: "pass_loop_run env s1 ps = Inr s'"
    by (auto split: sum.splits)
  from Cons.prems(2) have "q \<noteq> pass (fst p)" by auto
  with body have "pass_changes s1 q = pass_changes s q"
    using pass_loop_body_entry(2) [of env s "fst p" "snd p" s1 q] by simp
  moreover from Cons.IH [OF rest] Cons.prems(2) have "pass_changes s' q = pass_changes s1 q"
    by simp
  ultimately show ?case by simp
qed

lemma pass_loop_run_append:
  "pass_loop_run env s (ps @ qs) = and_then (pass_loop_run env s ps) (\<lambda>s'. pass_loop_run env s' qs)"
  by (induction ps arbitrary: s) (auto simp: and_then_def split: sum.splits)

text \<open>
  Claim C2. At the iteration of a pass whose \<^verbatim>\<open>depends_on\<close> identity last occurred, earlier
  in the sequence, in a pass that was skipped or that ran without changing the graph,
  the bitset entry of that identity is false; the pass is then not executed (the graph,
  the observer and the trace stay as they are, and so does \<^verbatim>\<open>change\<close>) and the bitset
  entry of its own identity is set to false.
\<close>

theorem unsatisfied_dependency_skips_pass:
  assumes prefix: "pass_loop_run env (pass_loop_init c) earlier = Inr s0"
    and since: "pass_loop_run env s0 ((d0, optimization0) # between) = Inr s"
    and recent: "pass d0 = depends_on d"
    and none_between: "\<forall>p \<in> set between. pass (fst p) \<noteq> depends_on d"
    and unchanged:
      "\<not> pass_changes s0 (depends_on d0) \<or> \<not> fst (Run optimization0 (graph (comp s0)))"
  shows "\<not> pass_changes s (depends_on d)
     \<and> pass_loop_body env s (d, optimization) =
         Inr (s\<lparr>pass_changes := (pass_changes s)(pass d := False)\<rparr>)
     \<and> pass_loop_run env (pass_loop_init c)
         (earlier @ (d0, optimization0) # between @ [(d, optimization)]) =
         Inr (s\<lparr>pass_changes := (pass_changes s)(pass d := False)\<rparr>)"
proof -
  from since obtain s1 where
    body: "pass_loop_body env s0 (d0, optimization0) = Inr s1"
    and rest: "pass_loop_run env s1 between = Inr s"
    by (auto split: sum.splits)
  from body unchanged have "\<not> pass_changes s1 (pass d0)"
    using pass_loop_body_entry(1) [of env s0 d0 optimization0 s1] by blast
  moreover from rest none_between have "pass_changes s (depends_on d) = pass_changes s1 (depends_on d)"
    by (rule pass_loop_run_other)
  ultimately have entry: "\<not> pass_changes s (depends_on d)"
    using recent by simp
  then have skip: "pass_loop_body env s (d, optimization) =
      Inr (s\<lparr>pass_changes := (pass_changes s)(pass d := False)\<rparr>)"
    by (rule pass_loop_body_skip)
  have "pass_loop_run env (pass_loop_init c)
          (earlier @ ((d0, optimization0) # between) @ [(d, optimization)]) =
        Inr (s\<lparr>pass_changes := (pass_changes s)(pass d := False)\<rparr>)"
    using prefix since skip
    by (simp only: pass_loop_run_append and_then_def sum.case pass_loop_run.simps)
  with entry skip show ?thesis by simp
qed

theorem unsatisfied_dependency_skips_pass_witness:
  "pass_loop_run env_ex (pass_loop_init comp_ex) [] = Inr (pass_loop_init comp_ex)
   \<and> pass_loop_run env_ex (pass_loop_init comp_ex)
        [(OptDef kInliner, opt_ex ''inliner'' False),
         (OptDef kSideEffectsAnalysis, opt_ex ''side_effects'' True),
         (OptDefD kConstantFolding ''constant_folding$after_inlining'' kInliner,
          opt_ex ''constant_folding$after_inlining'' True)] =
      Inr \<lparr>comp = comp_ex\<lparr>graph := 2, last_seen_graph_size := 2,
                           trace := [RunCall ''inliner'' False, RunCall ''side_effects'' True]\<rparr>,
           pass_changes = (\<lambda>p. p = kNone \<or> p = kSideEffectsAnalysis),
           change = True\<rparr>"
proof -
  let ?s = "\<lparr>comp = comp_ex\<lparr>graph := 2, last_seen_graph_size := 2,
                           trace := [RunCall ''inliner'' False, RunCall ''side_effects'' True]\<rparr>,
           pass_changes = (\<lambda>p. p = kNone \<or> p = kInliner \<and> False \<or> p = kSideEffectsAnalysis),
           change = True\<rparr>"
  have h1: "pass_loop_run env_ex (pass_loop_init comp_ex) [] = Inr (pass_loop_init comp_ex)"
    by simp
  have h2: "pass_loop_run env_ex (pass_loop_init comp_ex)
        [(OptDef kInliner, opt_ex ''inliner'' False),
         (OptDef kSideEffectsAnalysis, opt_ex ''side_effects'' True)] = Inr ?s"
    by (simp add: pass_loop_body_def pass_loop_init_def comp_ex_def opt_ex_def OptDef_def
        StartPass_def EndPass_def emit_def env_ex_def rt_ex_def col_ex_def Let_def fun_eq_iff)
  have h3: "pass (OptDef kInliner) =
      depends_on (OptDefD kConstantFolding ''constant_folding$after_inlining'' kInliner)"
    by (simp add: OptDef_def OptDefD_def)
  have h4: "\<forall>p \<in> set [(OptDef kSideEffectsAnalysis, opt_ex ''side_effects'' True)].
      pass (fst p) \<noteq>
      depends_on (OptDefD kConstantFolding ''constant_folding$after_inlining'' kInliner)"
    by (simp add: OptDef_def OptDefD_def)
  have h5: "\<not> pass_changes (pass_loop_init comp_ex) (depends_on (OptDef kInliner))
      \<or> \<not> fst (Run (opt_ex ''inliner'' False) (graph (comp (pass_loop_init comp_ex))))"
    by (simp add: opt_ex_def)
  from unsatisfied_dependency_skips_pass [OF h1 h2 h3 h4 h5,
      of "opt_ex ''constant_folding$after_inlining'' True"]
  show ?thesis
    by (simp add: OptDefD_def fun_eq_iff)
qed


lemma pass_loop_run_sentinel:
  "pass_loop_run env s ps = Inr s' \<Longrightarrow> \<forall>p \<in> set ps. pass (fst p) \<noteq> kNone \<Longrightarrow>
   pass_changes s' kNone = pass_changes s kNone"
  by (rule pass_loop_run_other)

lemma trace_StartPass:
  "\<exists>evs. trace (StartPass name c) = trace c @ evs"
  by (simp add: StartPass_def emit_def Let_def)

lemma EndPass_trace:
  "\<exists>evs. (case EndPass env name pass_change c of
             Inl f \<Rightarrow> fatal_trace f | Inr c' \<Rightarrow> trace c') = trace c @ evs"
  by (simp add: EndPass_def emit_def Let_def)

lemma EndPass_graph: "EndPass env name pass_change c = Inr c' \<Longrightarrow> graph c' = graph c"
  by (auto simp: EndPass_def emit_def Let_def split: if_splits)

lemma pass_loop_body_executes:
  assumes "pass_changes s (depends_on d)"
  shows "RunCall (GetPassName optimization) (fst (Run optimization (graph (comp s))))
           \<in> set (drop (length (trace (comp s)))
                    (loop_trace (pass_loop_body env s (d, optimization))))"
proof -
  let ?name = "PassName (GetPassName optimization)"
  let ?change = "fst (Run optimization (graph (comp s)))"
  let ?c1 = "StartPass ?name (comp s)"
  let ?c2 = "emit (RunCall (GetPassName optimization) ?change)
               (?c1\<lparr>graph := snd (Run optimization (graph ?c1))\<rparr>)"
  obtain evs1 where t1: "trace ?c1 = trace (comp s) @ evs1"
    using trace_StartPass by blast
  then have t2: "trace ?c2 = trace (comp s) @ evs1 @ [RunCall (GetPassName optimization) ?change]"
    by (simp add: emit_def)
  obtain evs2 where t3:
    "(case EndPass env ?name ?change ?c2 of Inl f \<Rightarrow> fatal_trace f | Inr c' \<Rightarrow> trace c')
       = trace ?c2 @ evs2"
    using EndPass_trace by blast
  have "loop_trace (pass_loop_body env s (d, optimization)) =
        (case EndPass env ?name ?change ?c2 of Inl f \<Rightarrow> fatal_trace f | Inr c' \<Rightarrow> trace c')"
    using assms
    by (simp add: pass_loop_body_def loop_trace_def Let_def split: sum.splits)
  with t2 t3 have "loop_trace (pass_loop_body env s (d, optimization)) =
      trace (comp s) @ evs1 @ [RunCall (GetPassName optimization) ?change] @ evs2"
    by simp
  then show ?thesis by simp
qed

lemma pass_loop_body_result:
  assumes "pass_changes s (depends_on d)"
    and "pass_loop_body env s (d, optimization) = Inr s'"
  shows "graph (comp s') = snd (Run optimization (graph (comp s)))
       \<and> pass_changes s' (pass d) = fst (Run optimization (graph (comp s)))"
  using assms
  by (auto simp: pass_loop_body_def Let_def emit_def split: sum.splits if_splits
      dest!: EndPass_graph)

lemma pass_loop_body_trace:
  "\<exists>evs. loop_trace (pass_loop_body env s p) = trace (comp s) @ evs"
proof (cases "pass_changes s (depends_on (fst p))")
  case False
  then show ?thesis by (simp add: pass_loop_body_def loop_trace_def Let_def)
next
  case True
  let ?opt = "snd p"
  let ?name = "PassName (GetPassName ?opt)"
  let ?c1 = "StartPass ?name (comp s)"
  let ?change = "fst (Run ?opt (graph ?c1))"
  let ?c2 = "emit (RunCall (GetPassName ?opt) ?change) (?c1\<lparr>graph := snd (Run ?opt (graph ?c1))\<rparr>)"
  obtain evs1 where t1: "trace ?c1 = trace (comp s) @ evs1"
    using trace_StartPass by blast
  then have t2: "trace ?c2 = trace (comp s) @ evs1 @ [RunCall (GetPassName ?opt) ?change]"
    by (simp add: emit_def)
  obtain evs2 where t3:
    "(case EndPass env ?name ?change ?c2 of Inl f \<Rightarrow> fatal_trace f | Inr c' \<Rightarrow> trace c')
       = trace ?c2 @ evs2"
    using EndPass_trace by blast
  have "loop_trace (pass_loop_body env s p) =
        (case EndPass env ?name ?change ?c2 of Inl f \<Rightarrow> fatal_trace f | Inr c' \<Rightarrow> trace c')"
    using True
    by (simp add: pass_loop_body_def loop_trace_def Let_def split: sum.splits)
  with t2 t3 have "loop_trace (pass_loop_body env s p) =
      trace (comp s) @ (evs1 @ [RunCall (GetPassName ?opt) ?change] @ evs2)"
    by simp
  then show ?thesis by blast
qed

lemma pass_loop_run_trace:
  "\<exists>evs. loop_trace (pass_loop_run env s ps) = trace (comp s) @ evs"
proof (induction ps arbitrary: s)
  case Nil
  then show ?case by (simp add: loop_trace_def)
next
  case (Cons p ps)
  obtain evs1 where body: "loop_trace (pass_loop_body env s p) = trace (comp s) @ evs1"
    using pass_loop_body_trace by blast
  show ?case
  proof (cases "pass_loop_body env s p")
    case (Inl f)
    with body show ?thesis by (simp add: loop_trace_def)
  next
    case (Inr s1)
    with body have t1: "trace (comp s1) = trace (comp s) @ evs1"
      by (simp add: loop_trace_def)
    from Cons.IH [of s1] obtain evs2 where
      "loop_trace (pass_loop_run env s1 ps) = trace (comp s1) @ evs2" by blast
    with t1 Inr have "loop_trace (pass_loop_run env s (p # ps)) = trace (comp s) @ (evs1 @ evs2)"
      by simp
    then show ?thesis by blast
  qed
qed

lemma pass_loop_run_reaches:
  assumes "pass_loop_run env s0 earlier = Inr s"
  shows "pass_loop_run env s0 (earlier @ p # later) =
           (case pass_loop_body env s p of
              Inl f \<Rightarrow> Inl f
            | Inr s' \<Rightarrow> pass_loop_run env s' later)"
  using assms by (simp add: pass_loop_run_append and_then_def)

lemma pass_loop_run_executes:
  assumes reached: "pass_loop_run env s0 earlier = Inr s"
    and satisfied: "pass_changes s (depends_on d)"
  shows "RunCall (GetPassName optimization) (fst (Run optimization (graph (comp s))))
           \<in> set (drop (length (trace (comp s)))
                    (loop_trace (pass_loop_run env s0 (earlier @ (d, optimization) # later))))"
proof -
  let ?call = "RunCall (GetPassName optimization) (fst (Run optimization (graph (comp s))))"
  let ?n = "length (trace (comp s))"
  have body: "?call \<in> set (drop ?n (loop_trace (pass_loop_body env s (d, optimization))))"
    using satisfied by (rule pass_loop_body_executes)
  show ?thesis
  proof (cases "pass_loop_body env s (d, optimization)")
    case (Inl f)
    with reached have "pass_loop_run env s0 (earlier @ (d, optimization) # later) = Inl f"
      by (simp add: pass_loop_run_reaches)
    with Inl body show ?thesis by (simp add: loop_trace_def)
  next
    case (Inr s1)
    with reached have run: "pass_loop_run env s0 (earlier @ (d, optimization) # later) =
        pass_loop_run env s1 later"
      by (simp add: pass_loop_run_reaches)
    obtain evs where "loop_trace (pass_loop_run env s1 later) = trace (comp s1) @ evs"
      using pass_loop_run_trace by blast
    with run have "loop_trace (pass_loop_run env s0 (earlier @ (d, optimization) # later)) =
        loop_trace (pass_loop_body env s (d, optimization)) @ evs"
      using Inr by (simp add: loop_trace_def)
    with body show ?thesis by auto
  qed
qed

lemma RunOptimizations_defs_trace:
  "result_trace (\<lambda>r. trace (snd r)) (RunOptimizations_defs env definitions c) =
   loop_trace (pass_loop_run env (pass_loop_init c)
                 (zip definitions (ConstructOptimizations (col env) definitions)))"
  by (simp add: RunOptimizations_defs_def result_trace_def loop_trace_def Let_def
      split: sum.splits)

text \<open>
  Claim C3. The bitset entry of the sentinel \<open>kNone\<close> is true initially and at every
  iteration, provided no earlier definition has the sentinel as its own pass identity.
  A pass that depends on the sentinel is therefore executed whatever the earlier passes
  did: the loop reaches its iteration, its \<^verbatim>\<open>Run()\<close> is called there, and when the
  iteration ends normally the graph is the one \<^verbatim>\<open>Run()\<close> left and the pass's bitset
  entry is what it reported. The call is in the trace of the whole loop, whatever
  definitions follow, and in the trace of \<open>RunOptimizations_defs\<close> on definitions among
  which the pass occurs.
\<close>

theorem sentinel_dependency_always_runs:
  assumes "\<forall>p \<in> set earlier. pass (fst p) \<noteq> kNone"
    and "pass_loop_run env (pass_loop_init c) earlier = Inr s"
  shows "pass_changes (pass_loop_init c) kNone
     \<and> pass_changes s kNone
     \<and> (depends_on d = kNone \<longrightarrow>
          RunCall (GetPassName optimization) (fst (Run optimization (graph (comp s))))
            \<in> set (drop (length (trace (comp s)))
                     (loop_trace (pass_loop_body env s (d, optimization))))
          \<and> (\<forall>s'. pass_loop_body env s (d, optimization) = Inr s' \<longrightarrow>
                graph (comp s') = snd (Run optimization (graph (comp s)))
                \<and> pass_changes s' (pass d) = fst (Run optimization (graph (comp s))))
          \<and> pass_loop_run env (pass_loop_init c) (earlier @ [(d, optimization)]) =
              pass_loop_body env s (d, optimization)
          \<and> RunCall (GetPassName optimization) (fst (Run optimization (graph (comp s))))
              \<in> set (drop (length (trace (comp s)))
                       (loop_trace (pass_loop_run env (pass_loop_init c)
                                      (earlier @ (d, optimization) # later))))
          \<and> (zip definitions (ConstructOptimizations (col env) definitions) =
                earlier @ (d, optimization) # later \<longrightarrow>
              RunCall (GetPassName optimization) (fst (Run optimization (graph (comp s))))
                \<in> set (drop (length (trace (comp s)))
                         (result_trace (\<lambda>r. trace (snd r))
                            (RunOptimizations_defs env definitions c)))))"
proof -
  have init: "pass_changes (pass_loop_init c) kNone"
    by (simp add: pass_loop_init_def)
  from assms(2) assms(1) have "pass_changes s kNone = pass_changes (pass_loop_init c) kNone"
    by (rule pass_loop_run_sentinel)
  with init have inv: "pass_changes s kNone" by simp
  have last: "pass_loop_run env (pass_loop_init c) (earlier @ [(d, optimization)]) =
      pass_loop_body env s (d, optimization)"
    using pass_loop_run_reaches [OF assms(2), of "(d, optimization)" "[]"]
    by (simp split: sum.splits)
  have whole: "RunCall (GetPassName optimization) (fst (Run optimization (graph (comp s))))
      \<in> set (drop (length (trace (comp s)))
               (loop_trace (pass_loop_run env (pass_loop_init c)
                              (earlier @ (d, optimization) # later))))"
    if "depends_on d = kNone"
    using pass_loop_run_executes [OF assms(2), of d optimization later] inv that by simp
  have driver: "RunCall (GetPassName optimization) (fst (Run optimization (graph (comp s))))
      \<in> set (drop (length (trace (comp s)))
               (result_trace (\<lambda>r. trace (snd r)) (RunOptimizations_defs env definitions c)))"
    if "depends_on d = kNone"
      and "zip definitions (ConstructOptimizations (col env) definitions) =
             earlier @ (d, optimization) # later"
    using whole [OF that(1)] that(2) by (simp add: RunOptimizations_defs_trace)
  show ?thesis
    using init inv last whole driver pass_loop_body_executes [of s d optimization env]
      pass_loop_body_result [of s d env optimization]
    by auto
qed


theorem sentinel_dependency_always_runs_witness:
  "pass_loop_run env_ex (pass_loop_init comp_ex)
        [(OptDef kInliner, opt_ex ''inliner'' False),
         (OptDef kSideEffectsAnalysis, opt_ex ''side_effects'' True),
         (OptDefD kConstantFolding ''constant_folding$after_inlining'' kInliner,
          opt_ex ''constant_folding$after_inlining'' True)] =
      Inr \<lparr>comp = comp_ex\<lparr>graph := 2, last_seen_graph_size := 2,
                           trace := [RunCall ''inliner'' False, RunCall ''side_effects'' True]\<rparr>,
           pass_changes = (\<lambda>p. p = kNone \<or> p = kSideEffectsAnalysis),
           change = True\<rparr>
   \<and> RunCall ''side_effects'' True
       \<in> set (drop 1 (loop_trace (pass_loop_run env_ex (pass_loop_init comp_ex)
            [(OptDef kInliner, opt_ex ''inliner'' False),
             (OptDef kSideEffectsAnalysis, opt_ex ''side_effects'' True),
             (OptDefD kConstantFolding ''constant_folding$after_inlining'' kInliner,
              opt_ex ''constant_folding$after_inlining'' True)])))
   \<and> RunCall ''pass'' False
       \<in> set (drop 1 (result_trace (\<lambda>r. trace (snd r))
            (RunOptimizations_defs env_ex [OptDef kInliner, OptDef kSideEffectsAnalysis]
               comp_ex)))"
proof -
  let ?later = "[(OptDefD kConstantFolding ''constant_folding$after_inlining'' kInliner,
                  opt_ex ''constant_folding$after_inlining'' True)]"
  let ?s = "\<lparr>comp = comp_ex\<lparr>graph := 1, last_seen_graph_size := 1,
                           trace := [RunCall ''inliner'' False]\<rparr>,
           pass_changes = (\<lambda>p. p = kNone),
           change = False\<rparr>"
  have h1: "\<forall>p \<in> set [(OptDef kInliner, opt_ex ''inliner'' False)]. pass (fst p) \<noteq> kNone"
    by (simp add: OptDef_def)
  have h2: "pass_loop_run env_ex (pass_loop_init comp_ex)
        [(OptDef kInliner, opt_ex ''inliner'' False)] = Inr ?s"
    by (simp add: pass_loop_body_def pass_loop_init_def comp_ex_def opt_ex_def OptDef_def
        StartPass_def EndPass_def emit_def env_ex_def rt_ex_def col_ex_def Let_def fun_eq_iff)
  have sentinel: "depends_on (OptDef kSideEffectsAnalysis) = kNone"
    by (simp add: OptDef_def)
  from sentinel_dependency_always_runs [OF h1 h2, of "OptDef kSideEffectsAnalysis"
      "opt_ex ''side_effects'' True" ?later] sentinel
  have "RunCall (GetPassName (opt_ex ''side_effects'' True))
          (fst (Run (opt_ex ''side_effects'' True) (graph (comp ?s))))
      \<in> set (drop (length (trace (comp ?s)))
               (loop_trace (pass_loop_run env_ex (pass_loop_init comp_ex)
                  ([(OptDef kInliner, opt_ex ''inliner'' False)]
                   @ (OptDef kSideEffectsAnalysis, opt_ex ''side_effects'' True) # ?later))))"
    by blast
  then have a: "RunCall ''side_effects'' True
       \<in> set (drop 1 (loop_trace (pass_loop_run env_ex (pass_loop_init comp_ex)
            [(OptDef kInliner, opt_ex ''inliner'' False),
             (OptDef kSideEffectsAnalysis, opt_ex ''side_effects'' True),
             (OptDefD kConstantFolding ''constant_folding$after_inlining'' kInliner,
              opt_ex ''constant_folding$after_inlining'' True)])))"
    by (simp add: opt_ex_def comp_ex_def)
  have run: "pass_loop_run env_ex (pass_loop_init comp_ex)
        [(OptDef kInliner, opt_ex ''inliner'' False),
         (OptDef kSideEffectsAnalysis, opt_ex ''side_effects'' True),
         (OptDefD kConstantFolding ''constant_folding$after_inlining'' kInliner,
          opt_ex ''constant_folding$after_inlining'' True)] =
      Inr \<lparr>comp = comp_ex\<lparr>graph := 2, last_seen_graph_size := 2,
                           trace := [RunCall ''inliner'' False, RunCall ''side_effects'' True]\<rparr>,
           pass_changes = (\<lambda>p. p = kNone \<or> p = kSideEffectsAnalysis),
           change = True\<rparr>"
    by (simp add: pass_loop_body_def pass_loop_init_def comp_ex_def opt_ex_def OptDef_def
        OptDefD_def StartPass_def EndPass_def emit_def env_ex_def rt_ex_def col_ex_def Let_def
        fun_eq_iff)
  let ?built = "\<lparr>GetPassName = ''pass'', Run = (\<lambda>g :: nat. (False, g))\<rparr>"
  let ?t = "\<lparr>comp = comp_ex\<lparr>trace := [RunCall ''pass'' False]\<rparr>,
           pass_changes = (\<lambda>p. p = kNone),
           change = False\<rparr>"
  have g1: "\<forall>p \<in> set [(OptDef kInliner, ?built)]. pass (fst p) \<noteq> kNone"
    by (simp add: OptDef_def)
  have g2: "pass_loop_run env_ex (pass_loop_init comp_ex) [(OptDef kInliner, ?built)] = Inr ?t"
    by (simp add: pass_loop_body_def pass_loop_init_def comp_ex_def OptDef_def
        StartPass_def EndPass_def emit_def env_ex_def rt_ex_def col_ex_def Let_def fun_eq_iff)
  have g3: "zip [OptDef kInliner, OptDef kSideEffectsAnalysis]
        (ConstructOptimizations (col env_ex) [OptDef kInliner, OptDef kSideEffectsAnalysis]) =
      [(OptDef kInliner, ?built)] @ (OptDef kSideEffectsAnalysis, ?built) # []"
    by (simp add: env_ex_def col_ex_def OptDef_def)
  from sentinel_dependency_always_runs [OF g1 g2, of "OptDef kSideEffectsAnalysis" ?built "[]"
      "[OptDef kInliner, OptDef kSideEffectsAnalysis]"] sentinel g3
  have "RunCall (GetPassName ?built) (fst (Run ?built (graph (comp ?t))))
      \<in> set (drop (length (trace (comp ?t)))
               (result_trace (\<lambda>r. trace (snd r))
                  (RunOptimizations_defs env_ex [OptDef kInliner, OptDef kSideEffectsAnalysis]
                     comp_ex)))"
    by blast
  then have b: "RunCall ''pass'' False
       \<in> set (drop 1 (result_trace (\<lambda>r. trace (snd r))
            (RunOptimizations_defs env_ex [OptDef kInliner, OptDef kSideEffectsAnalysis]
               comp_ex)))"
    by (simp add: comp_ex_def)
  from run a b show ?thesis by blast
qed



section \<open>Sorting the relocation patches\<close>

lemma mset_sort_insert: "mset (sort_insert before x xs) = add_mset x (mset xs)"
  by (induction xs) auto

lemma mset_std_sort: "mset (std_sort before xs) = mset xs"
  by (induction xs) (auto simp: std_sort_def mset_sort_insert)

lemma set_sort_insert: "set (sort_insert before x xs) = insert x (set xs)"
  by (induction xs) auto

lemma sorted_sort_insert:
  "sorted_wrt (\<lambda>a b. LiteralOffset a \<le> LiteralOffset b) xs \<Longrightarrow>
   sorted_wrt (\<lambda>a b. LiteralOffset a \<le> LiteralOffset b)
     (sort_insert (\<lambda>lhs rhs. LiteralOffset lhs < LiteralOffset rhs) x xs)"
  by (induction xs) (auto simp: set_sort_insert)

lemma sorted_std_sort:
  "sorted_wrt (\<lambda>a b. LiteralOffset a \<le> LiteralOffset b)
     (std_sort (\<lambda>lhs rhs. LiteralOffset lhs < LiteralOffset rhs) xs)"
  by (induction xs) (auto simp: std_sort_def sorted_sort_insert)

lemma ascending_sorted_wrt:
  "sorted_wrt (\<lambda>a b. LiteralOffset a \<le> LiteralOffset b) xs \<Longrightarrow> ascending xs"
  by (induction xs rule: ascending.induct) auto

lemma strictly_ascending_sorted_wrt:
  "sorted_wrt (\<lambda>a b. LiteralOffset a < LiteralOffset b) xs \<Longrightarrow> strictly_ascending xs"
  by (induction xs rule: strictly_ascending.induct) auto

lemma strict_of_distinct:
  "sorted_wrt (\<lambda>a b. LiteralOffset a \<le> LiteralOffset b) xs \<Longrightarrow>
   distinct (map LiteralOffset xs) \<Longrightarrow>
   sorted_wrt (\<lambda>a b. LiteralOffset a < LiteralOffset b) xs"
  by (induction xs) (auto simp: le_less)

lemma distinct_offsets_sorted:
  "distinct (map LiteralOffset (std_sort before xs)) = distinct (map LiteralOffset xs)"
proof -
  have "mset (map LiteralOffset (std_sort before xs)) = mset (map LiteralOffset xs)"
    by (simp add: mset_std_sort)
  then show ?thesis by (rule mset_eq_imp_distinct_iff)
qed

text \<open>
  Claim C4, as amended. The patch list that \<^verbatim>\<open>EmitAndSortLinkerPatches\<close> assembles, which
  is the patch list of the artifact that \<^verbatim>\<open>Emit\<close> produces, holds the patches the code
  generator emitted, in ascending order of literal offset: no patch is followed by one
  with a smaller offset. It is strictly ascending when the emitted patches have pairwise
  distinct literal offsets.
\<close>

theorem EmitAndSortLinkerPatches_ascending:
  "ascending (EmitAndSortLinkerPatches env codegen)
   \<and> mset (EmitAndSortLinkerPatches env codegen) = mset (EmitLinkerPatches (emi env) codegen)
   \<and> (distinct (map LiteralOffset (EmitLinkerPatches (emi env) codegen)) \<longrightarrow>
        strictly_ascending (EmitAndSortLinkerPatches env codegen))
   \<and> cm_patches (fst (Emit env codegen item w)) = EmitAndSortLinkerPatches env codegen"
proof -
  let ?sorted = "EmitAndSortLinkerPatches env codegen"
  have le: "sorted_wrt (\<lambda>a b. LiteralOffset a \<le> LiteralOffset b) ?sorted"
    by (simp add: EmitAndSortLinkerPatches_def sorted_std_sort)
  have perm: "mset ?sorted = mset (EmitLinkerPatches (emi env) codegen)"
    by (simp add: EmitAndSortLinkerPatches_def mset_std_sort)
  have strict: "strictly_ascending ?sorted"
    if "distinct (map LiteralOffset (EmitLinkerPatches (emi env) codegen))"
  proof -
    from that have "distinct (map LiteralOffset ?sorted)"
      by (simp add: EmitAndSortLinkerPatches_def distinct_offsets_sorted)
    with le show ?thesis
      by (intro strictly_ascending_sorted_wrt strict_of_distinct)
  qed
  have artifact: "cm_patches (fst (Emit env codegen item w)) = ?sorted"
    by (simp add: Emit_def Let_def SwapAllocCompiledMethod_def)
  from le perm strict artifact show ?thesis
    by (simp add: ascending_sorted_wrt)
qed

theorem EmitAndSortLinkerPatches_ascending_witness:
  "distinct (map LiteralOffset (EmitLinkerPatches (emi env_ex) 0))
   \<and> EmitAndSortLinkerPatches env_ex 0 =
       [\<lparr>LiteralOffset = 4, ThunkSignature = 7\<rparr>, \<lparr>LiteralOffset = 8, ThunkSignature = 7\<rparr>]
   \<and> strictly_ascending (EmitAndSortLinkerPatches env_ex 0)"
  using EmitAndSortLinkerPatches_ascending [of env_ex 0 None world_ex]
  by (simp add: env_ex_def emi_ex_def EmitAndSortLinkerPatches_def std_sort_def)

text \<open>
  The claim as stated asks for a strictly ascending list for every artifact. Sorting
  does not remove patches: two emitted patches with the same literal offset stay next
  to each other.
\<close>

theorem strictly_ascending_counterexample:
  "EmitAndSortLinkerPatches env_dup 0 =
     [\<lparr>LiteralOffset = 4, ThunkSignature = 1\<rparr>, \<lparr>LiteralOffset = 4, ThunkSignature = 2\<rparr>]
   \<and> \<not> strictly_ascending (EmitAndSortLinkerPatches env_dup 0)"
  by (simp add: env_dup_def env_ex_def emi_ex_def EmitAndSortLinkerPatches_def std_sort_def)


section \<open>The rejections of TryCompile\<close>

subsection \<open>What the pipeline adds to the trace\<close>

lemma adds_no_iff: "adds_no e tr tr' \<longleftrightarrow> (\<exists>evs. tr' = tr @ evs \<and> e \<notin> set evs)"
proof
  assume "adds_no e tr tr'"
  then have "tr' = tr @ drop (length tr) tr' \<and> e \<notin> set (drop (length tr) tr')"
    by (metis adds_no_def append_take_drop_id)
  then show "\<exists>evs. tr' = tr @ evs \<and> e \<notin> set evs" by blast
next
  assume "\<exists>evs. tr' = tr @ evs \<and> e \<notin> set evs"
  then show "adds_no e tr tr'" by (auto simp: adds_no_def)
qed

lemma adds_no_refl [simp]: "adds_no e tr tr"
  by (simp add: adds_no_iff)

lemma adds_no_trans: "adds_no e a b \<Longrightarrow> adds_no e b c \<Longrightarrow> adds_no e a c"
  by (auto simp: adds_no_iff)

lemma adds_no_snoc: "e \<noteq> x \<Longrightarrow> adds_no e tr (tr @ [x])"
  by (simp add: adds_no_iff)

lemma adds_no_emit: "e \<noteq> x \<Longrightarrow> adds_no e (trace c) (trace (emit x c))"
  by (simp add: emit_def adds_no_snoc)

lemma adds_no_and_then:
  assumes "adds_no e tr (result_trace p m)"
    and "\<And>x. m = Inr x \<Longrightarrow> adds_no e (p x) (result_trace q (k x))"
  shows "adds_no e tr (result_trace q (and_then m k))"
proof (cases m)
  case (Inl f)
  with assms(1) show ?thesis by (simp add: and_then_def result_trace_def)
next
  case (Inr x)
  with assms(1) have "adds_no e tr (p x)" by (simp add: result_trace_def)
  moreover from Inr assms(2) have "adds_no e (p x) (result_trace q (k x))" by simp
  ultimately have "adds_no e tr (result_trace q (k x))" by (rule adds_no_trans)
  with Inr show ?thesis by (simp add: and_then_def)
qed

lemma StartPass_adds_no_stat:
  "adds_no (MaybeRecordStat st) (trace c) (trace (StartPass name c))"
  by (simp add: StartPass_def emit_def Let_def adds_no_iff)

lemma EndPass_adds_no_stat:
  "adds_no (MaybeRecordStat st) (trace c) (result_trace trace (EndPass env name pass_change c))"
  by (simp add: EndPass_def emit_def Let_def adds_no_iff result_trace_def)

lemma pass_loop_body_adds_no_stat:
  "adds_no (MaybeRecordStat st) (trace (comp s))
     (result_trace (\<lambda>s'. trace (comp s')) (pass_loop_body env s p))"
proof (cases "pass_changes s (depends_on (fst p))")
  case False
  then show ?thesis by (simp add: pass_loop_body_def result_trace_def Let_def)
next
  case True
  let ?opt = "snd p"
  let ?name = "PassName (GetPassName ?opt)"
  let ?c1 = "StartPass ?name (comp s)"
  let ?change = "fst (Run ?opt (graph ?c1))"
  let ?c2 = "emit (RunCall (GetPassName ?opt) ?change) (?c1\<lparr>graph := snd (Run ?opt (graph ?c1))\<rparr>)"
  have a: "adds_no (MaybeRecordStat st) (trace (comp s)) (trace ?c1)"
    by (rule StartPass_adds_no_stat)
  have "adds_no (MaybeRecordStat st) (trace ?c1) (trace ?c2)"
    by (simp add: emit_def adds_no_snoc)
  with a have b: "adds_no (MaybeRecordStat st) (trace (comp s)) (trace ?c2)"
    by (rule adds_no_trans)
  have c: "adds_no (MaybeRecordStat st) (trace ?c2)
             (result_trace trace (EndPass env ?name ?change ?c2))"
    by (rule EndPass_adds_no_stat)
  from b c have d: "adds_no (MaybeRecordStat st) (trace (comp s))
             (result_trace trace (EndPass env ?name ?change ?c2))"
    by (rule adds_no_trans)
  have "result_trace (\<lambda>s'. trace (comp s')) (pass_loop_body env s p) =
        result_trace trace (EndPass env ?name ?change ?c2)"
    using True
    by (simp add: pass_loop_body_def result_trace_def Let_def split: sum.splits)
  with d show ?thesis by simp
qed

lemma pass_loop_run_adds_no_stat:
  "adds_no (MaybeRecordStat st) (trace (comp s))
     (result_trace (\<lambda>s'. trace (comp s')) (pass_loop_run env s ps))"
proof (induction ps arbitrary: s)
  case Nil
  then show ?case by (simp add: result_trace_def)
next
  case (Cons p ps)
  have "pass_loop_run env s (p # ps) =
        and_then (pass_loop_body env s p) (\<lambda>s'. pass_loop_run env s' ps)"
    by (simp add: and_then_def)
  moreover have "adds_no (MaybeRecordStat st) (trace (comp s))
      (result_trace (\<lambda>s'. trace (comp s'))
         (and_then (pass_loop_body env s p) (\<lambda>s'. pass_loop_run env s' ps)))"
    by (rule adds_no_and_then [where p = "\<lambda>s'. trace (comp s')"])
       (rule pass_loop_body_adds_no_stat, rule Cons.IH)
  ultimately show ?case by simp
qed

lemma RunOptimizations_defs_adds_no_stat:
  "adds_no (MaybeRecordStat st) (trace c)
     (result_trace (\<lambda>r. trace (snd r)) (RunOptimizations_defs env definitions c))"
proof -
  let ?run = "pass_loop_run env (pass_loop_init c)
                (zip definitions (ConstructOptimizations (col env) definitions))"
  have "adds_no (MaybeRecordStat st) (trace (comp (pass_loop_init c)))
          (result_trace (\<lambda>s'. trace (comp s')) ?run)"
    by (rule pass_loop_run_adds_no_stat)
  moreover have "result_trace (\<lambda>r. trace (snd r)) (RunOptimizations_defs env definitions c) =
      result_trace (\<lambda>s'. trace (comp s')) ?run"
    by (simp add: RunOptimizations_defs_def result_trace_def Let_def split: sum.splits)
  ultimately show ?thesis by (simp add: pass_loop_init_def)
qed

lemma RunBaselineOptimizations_adds_no_stat:
  "adds_no (MaybeRecordStat st) (trace c)
     (result_trace (\<lambda>r. trace (snd r)) (RunBaselineOptimizations env c))"
  using RunOptimizations_defs_adds_no_stat [of st c env]
  by (simp add: RunBaselineOptimizations_def Let_def result_trace_def)

lemma RunArchOptimizations_adds_no_stat:
  "adds_no (MaybeRecordStat st) (trace c)
     (result_trace (\<lambda>r. trace (snd r)) (RunArchOptimizations env c))"
  using RunOptimizations_defs_adds_no_stat [of st c env]
  by (simp add: RunArchOptimizations_def Let_def result_trace_def)

lemma result_trace_Inr_snd:
  "result_trace trace (and_then m (\<lambda>r. Inr (snd r))) = result_trace (\<lambda>r. trace (snd r)) m"
  by (simp add: result_trace_def and_then_def split: sum.splits)

lemma RunOptimizations_adds_no_stat:
  "adds_no (MaybeRecordStat st) (trace c) (result_trace trace (RunOptimizations env c))"
proof (cases "GetPassesToRun (options env)")
  case (Some names)
  then show ?thesis
    using RunOptimizations_defs_adds_no_stat [of st c env]
    by (simp add: RunOptimizations_def Let_def result_trace_Inr_snd)
next
  case None
  have "adds_no (MaybeRecordStat st) (trace c)
          (result_trace trace
             (and_then (RunOptimizations_defs env fixed_optimizations c) (\<lambda>r1.
              and_then (RunArchOptimizations env (snd r1)) (\<lambda>r2. Inr (snd r2)))))"
  proof (rule adds_no_and_then [where p = "\<lambda>r. trace (snd r)"])
    show "adds_no (MaybeRecordStat st) (trace c)
            (result_trace (\<lambda>r. trace (snd r)) (RunOptimizations_defs env fixed_optimizations c))"
      by (rule RunOptimizations_defs_adds_no_stat)
  next
    fix x
    show "adds_no (MaybeRecordStat st) (trace (snd x))
            (result_trace trace (and_then (RunArchOptimizations env (snd x)) (\<lambda>r2. Inr (snd r2))))"
      by (simp add: result_trace_Inr_snd RunArchOptimizations_adds_no_stat)
  qed
  with None show ?thesis by (simp add: RunOptimizations_def)
qed

lemma AllocateRegisters_adds_no_stat:
  "adds_no (MaybeRecordStat st) (trace c)
     (result_trace trace (AllocateRegisters env strategy c))"
proof -
  have step: "adds_no (MaybeRecordStat st) (trace c0)
      (result_trace trace (EndPass env name True
         (emit x ((StartPass name c0)\<lparr>graph := g\<rparr>))))"
    if "\<And>s. x \<noteq> MaybeRecordStat s" for c0 name x g
  proof -
    have "adds_no (MaybeRecordStat st) (trace c0) (trace (StartPass name c0))"
      by (rule StartPass_adds_no_stat)
    moreover have "adds_no (MaybeRecordStat st) (trace (StartPass name c0))
        (trace (emit x ((StartPass name c0)\<lparr>graph := g\<rparr>)))"
      using that [of st] by (simp add: emit_def adds_no_snoc)
    ultimately have "adds_no (MaybeRecordStat st) (trace c0)
        (trace (emit x ((StartPass name c0)\<lparr>graph := g\<rparr>)))"
      by (rule adds_no_trans)
    then show ?thesis
      using EndPass_adds_no_stat adds_no_trans by blast
  qed
  show ?thesis
    unfolding AllocateRegisters_def Let_def
    by (intro adds_no_and_then [where p = trace] step) simp_all
qed

lemma PassObserver_new_adds_no_stat:
  "adds_no (MaybeRecordStat st) tr (trace (PassObserver_new env codegen tr))"
  by (simp add: PassObserver_new_def Let_def adds_no_iff)

lemma PassObserver_delete_adds_no_stat:
  "adds_no (MaybeRecordStat st) (trace c) (PassObserver_delete env c)"
  by (simp add: PassObserver_delete_def adds_no_iff)

lemma DumpDisassembly_adds_no_stat:
  "adds_no (MaybeRecordStat st) (trace c) (trace (DumpDisassembly c))"
  by (simp add: DumpDisassembly_def emit_def adds_no_iff)

lemma BuildGraph_failure_stat_not_space_filter:
  "BuildGraph_failure_stat result \<noteq> Some kNotCompiledSpaceFilter"
  by (cases result) simp_all

lemma TryCompile_pipeline_adds_no_space_filter:
  "adds_no (MaybeRecordStat kNotCompiledSpaceFilter) tr
     (outcome_trace (TryCompile_pipeline env kind codegen tr))"
proof -
  let ?e = "MaybeRecordStat kNotCompiledSpaceFilter"
  let ?c0 = "PassObserver_new env codegen tr"
  let ?c1 = "StartPass kBuilderPassName ?c0"
  let ?result = "fst (BuildGraph (col env) (graph ?c1))"
  let ?c2 = "emit (BuildGraphCall ?result) (?c1\<lparr>graph := snd (BuildGraph (col env) (graph ?c1))\<rparr>)"
  have t0: "adds_no ?e tr (trace ?c0)" by (rule PassObserver_new_adds_no_stat)
  have "adds_no ?e (trace ?c0) (trace ?c1)" by (rule StartPass_adds_no_stat)
  with t0 have t1: "adds_no ?e tr (trace ?c1)" by (rule adds_no_trans)
  have "adds_no ?e (trace ?c1) (trace ?c2)" by (simp add: emit_def adds_no_snoc)
  with t1 have t2: "adds_no ?e tr (trace ?c2)" by (rule adds_no_trans)
  show ?thesis
  proof (cases "?result = kAnalysisSuccess")
    case False
    let ?c3 = "case BuildGraph_failure_stat ?result of
                 Some stat \<Rightarrow> emit (MaybeRecordStat stat) ?c2 | None \<Rightarrow> ?c2"
    let ?c4 = "SetGraphInBadState ?c3"
    have "adds_no ?e (trace ?c2) (trace ?c3)"
      using BuildGraph_failure_stat_not_space_filter [of ?result]
      by (cases "BuildGraph_failure_stat ?result") (auto simp: emit_def adds_no_iff)
    then have "adds_no ?e (trace ?c2) (trace ?c4)" by (simp add: SetGraphInBadState_def)
    with t2 have t4: "adds_no ?e tr (trace ?c4)" by (rule adds_no_trans)
    have "adds_no ?e tr
            (result_trace snd
               (and_then (EndPass env kBuilderPassName True ?c4) (\<lambda>c5.
                  Inr (None, PassObserver_delete env c5))))"
    proof (rule adds_no_and_then [where p = trace])
      show "adds_no ?e tr (result_trace trace (EndPass env kBuilderPassName True ?c4))"
        using t4 EndPass_adds_no_stat by (rule adds_no_trans)
    next
      fix x :: "'a compilation"
      show "adds_no ?e (trace x) (result_trace snd (Inr (None, PassObserver_delete env x)))"
        by (simp add: result_trace_def PassObserver_delete_adds_no_stat)
    qed
    with False show ?thesis
      by (simp add: TryCompile_pipeline_def Let_def outcome_trace_def)
  next
    case True
    let ?opts = "\<lambda>c3. if kind = kBaseline
                     then and_then (RunBaselineOptimizations env c3) (\<lambda>r. Inr (snd r))
                     else RunOptimizations env c3"
    have opts: "adds_no ?e (trace c3) (result_trace trace (?opts c3))" for c3
      by (simp add: result_trace_Inr_snd RunBaselineOptimizations_adds_no_stat
          RunOptimizations_adds_no_stat)
    have finish: "adds_no ?e (trace c5)
        (result_trace snd
          (let c6 = emit CodegenCompile (c5\<lparr>graph := Codegen_Compile (col env) (graph c5)\<rparr>);
               c7 = DumpDisassembly c6;
               c8 = emit (MaybeRecordStat kCompiledBytecode) c7
           in Inr (Some (graph c8), PassObserver_delete env c8)))" for c5 :: "'a compilation"
      by (simp add: result_trace_def Let_def emit_def DumpDisassembly_def PassObserver_delete_def
          adds_no_iff)
    have "adds_no ?e tr
            (result_trace snd
               (and_then (EndPass env kBuilderPassName True ?c2) (\<lambda>c3.
                and_then (?opts c3) (\<lambda>c4.
                and_then (AllocateRegisters env (GetRegisterAllocationStrategy (options env)) c4)
                  (\<lambda>c5.
                  let c6 = emit CodegenCompile (c5\<lparr>graph := Codegen_Compile (col env) (graph c5)\<rparr>);
                      c7 = DumpDisassembly c6;
                      c8 = emit (MaybeRecordStat kCompiledBytecode) c7
                  in Inr (Some (graph c8), PassObserver_delete env c8))))))"
    proof (rule adds_no_and_then [where p = trace])
      show "adds_no ?e tr (result_trace trace (EndPass env kBuilderPassName True ?c2))"
        using t2 EndPass_adds_no_stat by (rule adds_no_trans)
    next
      fix c3 :: "'a compilation"
      show "adds_no ?e (trace c3)
          (result_trace snd
            (and_then (?opts c3) (\<lambda>c4.
             and_then (AllocateRegisters env (GetRegisterAllocationStrategy (options env)) c4)
               (\<lambda>c5.
               let c6 = emit CodegenCompile (c5\<lparr>graph := Codegen_Compile (col env) (graph c5)\<rparr>);
                   c7 = DumpDisassembly c6;
                   c8 = emit (MaybeRecordStat kCompiledBytecode) c7
               in Inr (Some (graph c8), PassObserver_delete env c8)))))"
      proof (rule adds_no_and_then [where p = trace])
        show "adds_no ?e (trace c3) (result_trace trace (?opts c3))" by (rule opts)
      next
        fix c4 :: "'a compilation"
        show "adds_no ?e (trace c4)
          (result_trace snd
            (and_then (AllocateRegisters env (GetRegisterAllocationStrategy (options env)) c4)
               (\<lambda>c5.
               let c6 = emit CodegenCompile (c5\<lparr>graph := Codegen_Compile (col env) (graph c5)\<rparr>);
                   c7 = DumpDisassembly c6;
                   c8 = emit (MaybeRecordStat kCompiledBytecode) c7
               in Inr (Some (graph c8), PassObserver_delete env c8))))"
          by (rule adds_no_and_then [where p = trace])
             (rule AllocateRegisters_adds_no_stat, rule finish)
      qed
    qed
    with True show ?thesis
      by (simp add: TryCompile_pipeline_def Let_def outcome_trace_def)
  qed
qed

lemma TryCompile_adds_no_space_filter:
  assumes "\<not> (GetCompilerFilter (options env) = kSpace
              \<and> InsnsSizeInCodeUnits item > kSpaceFilterOptimizingThreshold)"
  shows "adds_no (MaybeRecordStat kNotCompiledSpaceFilter) tr
           (outcome_trace (TryCompile env item method kind tr))"
proof -
  let ?e = "MaybeRecordStat kNotCompiledSpaceFilter"
  have pipeline: "adds_no ?e tr (outcome_trace (TryCompile_pipeline env kind codegen (tr @ evs)))"
    if "?e \<notin> set evs" for codegen evs
  proof -
    from that have "adds_no ?e tr (tr @ evs)" by (simp add: adds_no_iff)
    then show ?thesis
      using TryCompile_pipeline_adds_no_space_filter by (rule adds_no_trans)
  qed
  show ?thesis
    using assms pipeline [of "[MaybeRecordStat kAttemptBytecodeCompilation, NewHGraph _ kind,
        CodeGeneratorCreate True]"]
    by (auto simp: TryCompile_def Let_def outcome_trace_def result_trace_def adds_no_iff
        split: option.splits)
qed

subsection \<open>The space filter\<close>

text \<open>
  Claim C5, as amended. Under \<^verbatim>\<open>CompilerFilter::kSpace\<close>, with the threshold 128,
  \<^verbatim>\<open>TryCompile\<close> returns null for every method whose bytecode size in code units is 129
  or more; the statistic it records is the space filter's when the method has passed the
  two earlier checks (the instruction set is supported and the method is not
  pathological). A method whose size is exactly 128 is not rejected on this criterion:
  whatever \<^verbatim>\<open>TryCompile\<close> then does, it does not record the space-filter statistic.
\<close>

theorem space_filter_threshold:
  assumes "GetCompilerFilter (options env) = kSpace"
  shows "kSpaceFilterOptimizingThreshold = 128
    \<and> (kSpaceFilterOptimizingThreshold + 1 \<le> InsnsSizeInCodeUnits item \<longrightarrow>
         (\<exists>tr'. TryCompile env item method kind tr = Inr (None, tr'))
         \<and> (IsInstructionSetSupported (GetInstructionSet (options env))
              \<and> \<not> IsPathologicalCase (rt env) item \<longrightarrow>
            TryCompile env item method kind tr =
              Inr (None, tr @ [MaybeRecordStat kAttemptBytecodeCompilation,
                               MaybeRecordStat kNotCompiledSpaceFilter])))
    \<and> (InsnsSizeInCodeUnits item = kSpaceFilterOptimizingThreshold \<longrightarrow>
         MaybeRecordStat kNotCompiledSpaceFilter
           \<notin> set (drop (length tr) (outcome_trace (TryCompile env item method kind tr))))"
proof -
  have rejected: "\<exists>tr'. TryCompile env item method kind tr = Inr (None, tr')"
    if "kSpaceFilterOptimizingThreshold + 1 \<le> InsnsSizeInCodeUnits item"
    using that assms by (simp add: TryCompile_def Let_def)
  have by_filter: "TryCompile env item method kind tr =
      Inr (None, tr @ [MaybeRecordStat kAttemptBytecodeCompilation,
                       MaybeRecordStat kNotCompiledSpaceFilter])"
    if "kSpaceFilterOptimizingThreshold + 1 \<le> InsnsSizeInCodeUnits item"
      and "IsInstructionSetSupported (GetInstructionSet (options env))"
      and "\<not> IsPathologicalCase (rt env) item"
    using that assms by (simp add: TryCompile_def Let_def)
  have at_threshold: "MaybeRecordStat kNotCompiledSpaceFilter
      \<notin> set (drop (length tr) (outcome_trace (TryCompile env item method kind tr)))"
    if "InsnsSizeInCodeUnits item = kSpaceFilterOptimizingThreshold"
  proof -
    from that have "\<not> (GetCompilerFilter (options env) = kSpace
              \<and> InsnsSizeInCodeUnits item > kSpaceFilterOptimizingThreshold)"
      by simp
    then have "adds_no (MaybeRecordStat kNotCompiledSpaceFilter) tr
           (outcome_trace (TryCompile env item method kind tr))"
      by (rule TryCompile_adds_no_space_filter)
    then show ?thesis by (auto simp: adds_no_iff)
  qed
  from rejected by_filter at_threshold show ?thesis
    by (simp add: kSpaceFilterOptimizingThreshold_def)
qed

theorem space_filter_threshold_witness:
  "GetCompilerFilter (options env_ex) = kSpace
   \<and> TryCompile env_ex (item_ex 129) None kOptimized [] =
       Inr (None, [MaybeRecordStat kAttemptBytecodeCompilation,
                   MaybeRecordStat kNotCompiledSpaceFilter])
   \<and> MaybeRecordStat kNotCompiledSpaceFilter
       \<notin> set (outcome_trace (TryCompile env_ex (item_ex 128) None kOptimized []))"
proof -
  have h: "GetCompilerFilter (options env_ex) = kSpace"
    by (simp add: env_ex_def opts_ex_def)
  have size129: "kSpaceFilterOptimizingThreshold + 1 \<le> InsnsSizeInCodeUnits (item_ex 129)"
    by (simp add: item_ex_def kSpaceFilterOptimizingThreshold_def)
  have supported: "IsInstructionSetSupported (GetInstructionSet (options env_ex))"
    by (simp add: env_ex_def opts_ex_def IsInstructionSetSupported_def)
  have ordinary: "\<not> IsPathologicalCase (rt env_ex) (item_ex 129)"
    by (simp add: env_ex_def rt_ex_def item_ex_def)
  have size128: "InsnsSizeInCodeUnits (item_ex 128) = kSpaceFilterOptimizingThreshold"
    by (simp add: item_ex_def kSpaceFilterOptimizingThreshold_def)
  from space_filter_threshold [OF h, of "item_ex 129" None kOptimized "[]"]
    size129 supported ordinary
  have a: "TryCompile env_ex (item_ex 129) None kOptimized [] =
       Inr (None, [MaybeRecordStat kAttemptBytecodeCompilation,
                   MaybeRecordStat kNotCompiledSpaceFilter])"
    by simp
  from space_filter_threshold [OF h, of "item_ex 128" None kOptimized "[]"] size128
  have "MaybeRecordStat kNotCompiledSpaceFilter
       \<notin> set (drop (length ([] :: event list))
                (outcome_trace (TryCompile env_ex (item_ex 128) None kOptimized [])))"
    by blast
  then have b: "MaybeRecordStat kNotCompiledSpaceFilter
       \<notin> set (outcome_trace (TryCompile env_ex (item_ex 128) None kOptimized []))"
    by simp
  from h a b show ?thesis by blast
qed

text \<open>
  The claim as stated has the space-filter statistic recorded for every method of 129
  code units or more. The checks for an unsupported instruction set and for a
  pathological method come first and record their own statistic.
\<close>

theorem space_filter_statistic_counterexample:
  "GetCompilerFilter (options env_unsupported) = kSpace
   \<and> InsnsSizeInCodeUnits (item_ex 129) = 129
   \<and> TryCompile env_unsupported (item_ex 129) None kOptimized [] =
       Inr (None, [MaybeRecordStat kAttemptBytecodeCompilation,
                   MaybeRecordStat kNotCompiledUnsupportedIsa])
   \<and> MaybeRecordStat kNotCompiledSpaceFilter
       \<notin> set (outcome_trace (TryCompile env_unsupported (item_ex 129) None kOptimized []))
   \<and> GetCompilerFilter (options env_ex) = kSpace
   \<and> InsnsSizeInCodeUnits (item_ex 20000) = 20000
   \<and> TryCompile env_ex (item_ex 20000) None kOptimized [] =
       Inr (None, [MaybeRecordStat kAttemptBytecodeCompilation,
                   MaybeRecordStat kNotCompiledPathological])
   \<and> MaybeRecordStat kNotCompiledSpaceFilter
       \<notin> set (outcome_trace (TryCompile env_ex (item_ex 20000) None kOptimized []))"
  by (simp add: TryCompile_def env_unsupported_def env_ex_def opts_ex_def rt_ex_def item_ex_def
      Let_def IsInstructionSetSupported_def outcome_trace_def result_trace_def)

subsection \<open>Pathological methods\<close>

text \<open>
  Claim C6, as amended. For every method that the structural heuristic classifies as
  pathological, \<^verbatim>\<open>TryCompile\<close> returns null without ending in \<^verbatim>\<open>LOG(FATAL)\<close>, and the
  only calls it has made by then are two calls of \<^verbatim>\<open>MaybeRecordStat\<close>: no graph has been
  constructed and no pass has run. On a supported instruction set the statistic
  recorded is the pathological one; on an unsupported instruction set the earlier check
  rejects the method and records the unsupported-ISA statistic.
\<close>

theorem pathological_rejected_before_graph:
  assumes "IsPathologicalCase (rt env) item"
  shows "TryCompile env item method kind tr =
           Inr (None, tr @ [MaybeRecordStat kAttemptBytecodeCompilation,
                            MaybeRecordStat
                              (if IsInstructionSetSupported (GetInstructionSet (options env))
                               then kNotCompiledPathological
                               else kNotCompiledUnsupportedIsa)])"
  using assms by (simp add: TryCompile_def Let_def)

theorem pathological_rejected_before_graph_witness:
  "IsPathologicalCase (rt env_ex) (item_ex 16383)
   \<and> TryCompile env_ex (item_ex 16383) None kOptimized [] =
       Inr (None, [MaybeRecordStat kAttemptBytecodeCompilation,
                   MaybeRecordStat kNotCompiledPathological])"
proof -
  have h: "IsPathologicalCase (rt env_ex) (item_ex 16383)"
    by (simp add: env_ex_def rt_ex_def item_ex_def)
  have supported: "IsInstructionSetSupported (GetInstructionSet (options env_ex))"
    by (simp add: env_ex_def opts_ex_def IsInstructionSetSupported_def)
  from pathological_rejected_before_graph [OF h, of None kOptimized "[]"] supported
  have "TryCompile env_ex (item_ex 16383) None kOptimized [] =
       Inr (None, [MaybeRecordStat kAttemptBytecodeCompilation,
                   MaybeRecordStat kNotCompiledPathological])"
    by simp
  with h show ?thesis by blast
qed

text \<open>
  The claim as stated has the pathological statistic recorded for every pathological
  method. On an unsupported instruction set the method is rejected before the
  heuristic is consulted.
\<close>

theorem pathological_statistic_counterexample:
  "IsPathologicalCase (rt env_unsupported) (item_ex 30000)
   \<and> TryCompile env_unsupported (item_ex 30000) None kOptimized [] =
       Inr (None, [MaybeRecordStat kAttemptBytecodeCompilation,
                   MaybeRecordStat kNotCompiledUnsupportedIsa])
   \<and> MaybeRecordStat kNotCompiledPathological
       \<notin> set (outcome_trace (TryCompile env_unsupported (item_ex 30000) None kOptimized []))"
  by (simp add: TryCompile_def env_unsupported_def env_ex_def opts_ex_def rt_ex_def item_ex_def
      Let_def IsInstructionSetSupported_def outcome_trace_def result_trace_def)


section \<open>The intrinsic attempt of Compile\<close>

lemma Emit_not_intrinsic: "\<not> cm_intrinsic (fst (Emit env codegen item w))"
  by (simp add: Emit_def Let_def SwapAllocCompiledMethod_def)

text \<open>
  Claim C7. Take a resolved intrinsic method for which \<^verbatim>\<open>TryCompileIntrinsic\<close> gets as
  far as register allocation and whose code generator then reports a non-leaf method.
  The intrinsic attempt returns null, and \<^verbatim>\<open>Compile\<close> is from there on the general path:
  \<^verbatim>\<open>TryCompile\<close> on the same method, followed by \<^verbatim>\<open>Emit\<close> with the code item. No compiled
  method that \<^verbatim>\<open>Compile\<close> returns in this case is marked as intrinsic.
\<close>

theorem non_leaf_intrinsic_falls_through:
  assumes resolved: "ResolveMethod (rt env) = Some m"
    and intrinsic: "IsIntrinsic m"
    and supported: "IsInstructionSetSupported (GetInstructionSet (options env))"
    and created:
      "CodeGenerator_Create (col env) (HGraph_new (col env) True kOptimized (Some m)) = Some codegen"
    and allocated:
      "TryCompileIntrinsic_allocated env m codegen
         (w_trace w @ [MaybeRecordStat kAttemptIntrinsicCompilation, NewHGraph True kOptimized,
                       CodeGeneratorCreate True]) = Inr c"
    and non_leaf: "\<not> IsLeafMethod (col env) (graph c)"
  shows "TryCompileIntrinsic env m (w_trace w) = Inr (None, PassObserver_delete env c)
     \<and> Compile env item w =
         and_then (TryCompile env item (Some m)
                     (if IsBaseline (options env) then kBaseline else kOptimized)
                     (PassObserver_delete env c)) (\<lambda>b.
           case fst b of
             None \<Rightarrow> Inr (None, w\<lparr>w_trace := snd b\<rparr>)
           | Some general \<Rightarrow>
               Inr (Some (fst (Emit env general (Some item) (w\<lparr>w_trace := snd b\<rparr>))),
                    snd (Emit env general (Some item) (w\<lparr>w_trace := snd b\<rparr>))))
     \<and> (\<forall>compiled_method w'. Compile env item w = Inr (Some compiled_method, w') \<longrightarrow>
          \<not> cm_intrinsic compiled_method)"
proof -
  have attempt: "TryCompileIntrinsic env m (w_trace w) = Inr (None, PassObserver_delete env c)"
    using supported created allocated non_leaf
    by (simp add: TryCompileIntrinsic_def Let_def and_then_def)
  then have stage1: "Compile_intrinsic_attempt env (Some m) (w_trace w) =
      Inr (None, False, PassObserver_delete env c)"
    using intrinsic by (simp add: Compile_intrinsic_attempt_def and_then_def)
  have general: "Compile env item w =
         and_then (TryCompile env item (Some m)
                     (if IsBaseline (options env) then kBaseline else kOptimized)
                     (PassObserver_delete env c)) (\<lambda>b.
           case fst b of
             None \<Rightarrow> Inr (None, w\<lparr>w_trace := snd b\<rparr>)
           | Some general \<Rightarrow>
               Inr (Some (fst (Emit env general (Some item) (w\<lparr>w_trace := snd b\<rparr>))),
                    snd (Emit env general (Some item) (w\<lparr>w_trace := snd b\<rparr>))))"
    using resolved stage1
    by (simp add: Compile_def Let_def and_then_def split: sum.splits option.splits)
  have "\<not> cm_intrinsic compiled_method"
    if "Compile env item w = Inr (Some compiled_method, w')" for compiled_method w'
    using that unfolding general
    by (auto simp: and_then_def Emit_not_intrinsic split: sum.splits option.splits)
  with attempt general show ?thesis by blast
qed


theorem non_leaf_intrinsic_falls_through_witness:
  "Compile env_non_leaf (item_ex 10) world_ex =
     and_then (TryCompile env_non_leaf (item_ex 10) (Some intrinsic_method_ex) kOptimized
                 [MaybeRecordStat kAttemptIntrinsicCompilation, NewHGraph True kOptimized,
                  CodeGeneratorCreate True, BuildIntrinsicGraphCall, RunCall ''pass'' False,
                  PrepareForRegisterAllocationRun, LivenessAnalyze, AllocateRegistersCall 0])
       (\<lambda>b. case fst b of
          None \<Rightarrow> Inr (None, world_ex\<lparr>w_trace := snd b\<rparr>)
        | Some general \<Rightarrow>
            Inr (Some (fst (Emit env_non_leaf general (Some (item_ex 10))
                              (world_ex\<lparr>w_trace := snd b\<rparr>))),
                 snd (Emit env_non_leaf general (Some (item_ex 10))
                        (world_ex\<lparr>w_trace := snd b\<rparr>))))"
proof -
  let ?c = "\<lparr>graph = 1, last_seen_graph_size = 1, timing_logger_enabled = False,
             visualizer_enabled = False, graph_in_bad_state = False,
             trace = [MaybeRecordStat kAttemptIntrinsicCompilation, NewHGraph True kOptimized,
                      CodeGeneratorCreate True, BuildIntrinsicGraphCall, RunCall ''pass'' False,
                      PrepareForRegisterAllocationRun, LivenessAnalyze,
                      AllocateRegistersCall 0]\<rparr> :: nat compilation"
  have resolved: "ResolveMethod (rt env_non_leaf) = Some intrinsic_method_ex"
    by (simp add: env_non_leaf_def env_ex_def)
  have intrinsic: "IsIntrinsic intrinsic_method_ex"
    by (simp add: intrinsic_method_ex_def)
  have supported: "IsInstructionSetSupported (GetInstructionSet (options env_non_leaf))"
    by (simp add: env_non_leaf_def env_ex_def opts_ex_def IsInstructionSetSupported_def)
  have created: "CodeGenerator_Create (col env_non_leaf)
      (HGraph_new (col env_non_leaf) True kOptimized (Some intrinsic_method_ex)) = Some 0"
    by (simp add: env_non_leaf_def env_ex_def col_ex_def)
  have allocated: "TryCompileIntrinsic_allocated env_non_leaf intrinsic_method_ex 0
         (w_trace world_ex @ [MaybeRecordStat kAttemptIntrinsicCompilation,
                              NewHGraph True kOptimized, CodeGeneratorCreate True]) = Inr ?c"
    by (simp add: TryCompileIntrinsic_allocated_def PassObserver_new_def StartPass_def
        EndPass_def emit_def and_then_def RunOptimizations_defs_def RunArchOptimizations_def
        AllocateRegisters_def pass_loop_body_def pass_loop_init_def OptDef_def
        env_non_leaf_def env_ex_def opts_ex_def rt_ex_def col_ex_def world_ex_def Let_def)
  have non_leaf: "\<not> IsLeafMethod (col env_non_leaf) (graph ?c)"
    by (simp add: env_non_leaf_def env_ex_def col_ex_def)
  have baseline: "\<not> IsBaseline (options env_non_leaf)"
    by (simp add: env_non_leaf_def env_ex_def opts_ex_def)
  have deleted: "PassObserver_delete env_non_leaf ?c = trace ?c"
    by (simp add: PassObserver_delete_def)
  from non_leaf_intrinsic_falls_through [OF resolved intrinsic supported created allocated
      non_leaf, of "item_ex 10"] baseline deleted
  show ?thesis by simp
qed


section \<open>The verbosity filter\<close>

text \<open>\<^verbatim>\<open>strstr\<close> finds the needle exactly when the haystack contains it.\<close>

lemma strstr_iff: "strstr hay needle \<noteq> None \<longleftrightarrow> (\<exists>pre suf. hay = pre @ needle @ suf)"
proof (induction hay)
  case Nil
  then show ?case by auto
next
  case (Cons c cs)
  show ?case
  proof (cases "take (length needle) (c # cs) = needle")
    case True
    then have "c # cs = [] @ needle @ drop (length needle) (c # cs)"
      by (metis append_Nil append_take_drop_id)
    then have "\<exists>pre suf. c # cs = pre @ needle @ suf" by blast
    with True show ?thesis by simp
  next
    case False
    have "(\<exists>pre suf. c # cs = pre @ needle @ suf) \<longleftrightarrow> (\<exists>pre suf. cs = pre @ needle @ suf)"
    proof
      assume "\<exists>pre suf. c # cs = pre @ needle @ suf"
      then obtain pre suf where eq: "c # cs = pre @ needle @ suf" by blast
      show "\<exists>pre suf. cs = pre @ needle @ suf"
      proof (cases pre)
        case Nil
        with eq have "take (length needle) (c # cs) = needle" by simp
        with False show ?thesis by simp
      next
        case (Cons a pre')
        with eq have "cs = pre' @ needle @ suf" by simp
        then show ?thesis by blast
      qed
    next
      assume "\<exists>pre suf. cs = pre @ needle @ suf"
      then obtain pre suf where "cs = pre @ needle @ suf" by blast
      then have "c # cs = (c # pre) @ needle @ suf" by simp
      then show "\<exists>pre suf. c # cs = pre @ needle @ suf" by blast
    qed
    with False Cons.IH show ?thesis by simp
  qed
qed

text \<open>
  Claim C8. For every method name, \<^verbatim>\<open>IsVerboseMethod\<close> returns the result of the exact
  match against the configured allow-list when one is configured; otherwise it falls
  back to a substring test against the compiled-in filter string, where the empty
  filter matches every method name. The compiled-in filter is empty, so without an
  allow-list every method is verbose.
\<close>

theorem IsVerboseMethod_filtering:
  "(verbose_methods opts = Some allowed \<longrightarrow>
      IsVerboseMethod_filter f opts name = (name \<in> set allowed))
   \<and> (verbose_methods opts = None \<longrightarrow>
      IsVerboseMethod_filter f opts name = (\<exists>pre suf. name = pre @ f @ suf))
   \<and> (verbose_methods opts = None \<longrightarrow> IsVerboseMethod_filter [] opts name)
   \<and> (verbose_methods opts = Some allowed \<longrightarrow> IsVerboseMethod opts name = (name \<in> set allowed))
   \<and> (verbose_methods opts = None \<longrightarrow> IsVerboseMethod opts name)"
proof -
  have "name = [] @ [] @ name" by simp
  then have empty_matches: "\<exists>pre suf. name = pre @ [] @ suf" by blast
  have sub: "verbose_methods opts = None \<Longrightarrow>
      IsVerboseMethod_filter f opts name = (\<exists>pre suf. name = pre @ f @ suf)" for f
  proof (cases "f = []")
    case True
    assume "verbose_methods opts = None"
    with True empty_matches show ?thesis
      by (simp add: IsVerboseMethod_filter_def HasVerboseMethods_def arraysize_def)
  next
    case False
    assume "verbose_methods opts = None"
    with False strstr_iff [of name f] show ?thesis
      by (simp add: IsVerboseMethod_filter_def HasVerboseMethods_def arraysize_def)
  qed
  have exact: "verbose_methods opts = Some allowed \<Longrightarrow>
      IsVerboseMethod_filter f opts name = (name \<in> set allowed)" for f
    by (simp add: IsVerboseMethod_filter_def HasVerboseMethods_def
        CompilerOptions_IsVerboseMethod_def)
  show ?thesis
    using sub [of f] sub [of "[]"] exact [of f] exact [of kStringFilter] sub [of kStringFilter]
    by (auto simp: IsVerboseMethod_def kStringFilter_def)
qed

theorem IsVerboseMethod_filtering_witness:
  "IsVerboseMethod opts_ex ''void Main.run()''
   \<and> \<not> IsVerboseMethod opts_ex ''void Main.run()V''
   \<and> \<not> IsVerboseMethod_filter ''Main'' (opts_ex\<lparr>verbose_methods := None\<rparr>) ''void Other.run()''
   \<and> IsVerboseMethod_filter ''Main'' (opts_ex\<lparr>verbose_methods := None\<rparr>) ''void Main.run()''
   \<and> IsVerboseMethod (opts_ex\<lparr>verbose_methods := None\<rparr>) ''void Main.run()''"
  using IsVerboseMethod_filtering [of opts_ex "[''void Main.run()'']" "''Main''" "''void Main.run()''"]
        IsVerboseMethod_filtering [of "opts_ex\<lparr>verbose_methods := None\<rparr>" "[]" "''Main''" "''void Main.run()''"]
  by (simp add: opts_ex_def IsVerboseMethod_def IsVerboseMethod_filter_def HasVerboseMethods_def
        CompilerOptions_IsVerboseMethod_def kStringFilter_def arraysize_def)


section \<open>Thunk code in Emit\<close>

lemma GetThunkCode_signature:
  "ThunkSignature p = ThunkSignature q \<Longrightarrow> GetThunkCode w p = GetThunkCode w q"
  by (simp add: GetThunkCode_def)

lemma GetThunkCode_SetThunkCode:
  "GetThunkCode (SetThunkCode patch code debug_name w) q =
     (if ThunkSignature q = ThunkSignature patch then code else GetThunkCode w q)"
  by (simp add: GetThunkCode_def SetThunkCode_def)

lemma Emit_thunks_trace:
  "\<exists>evs. w_trace (Emit_thunks env codegen ps w) = w_trace w @ evs"
proof (induction ps arbitrary: w)
  case Nil
  then show ?case by simp
next
  case (Cons patch ps)
  show ?case
  proof (cases "NeedsThunkCode (emi env) codegen patch \<and> GetThunkCode w patch = []")
    case True
    let ?w1 = "SetThunkCode patch (fst (EmitThunkCode (emi env) codegen patch))
                 (snd (EmitThunkCode (emi env) codegen patch)) w"
    from Cons.IH [of ?w1] obtain evs where
      "w_trace (Emit_thunks env codegen ps ?w1) = w_trace ?w1 @ evs" by blast
    with True show ?thesis by (simp add: Let_def SetThunkCode_def)
  next
    case False
    with Cons.IH [of w] show ?thesis by auto
  qed
qed

lemma Emit_thunks_existing:
  assumes "GetThunkCode w q \<noteq> []"
  shows "\<exists>evs. w_trace (Emit_thunks env codegen ps w) = w_trace w @ evs
           \<and> filter (is_registration (ThunkSignature q)) evs = []
           \<and> thunks (Emit_thunks env codegen ps w) (ThunkSignature q) = thunks w (ThunkSignature q)"
  using assms
proof (induction ps arbitrary: w)
  case Nil
  then show ?case by simp
next
  case (Cons patch ps)
  show ?case
  proof (cases "NeedsThunkCode (emi env) codegen patch \<and> GetThunkCode w patch = []")
    case True
    let ?code = "fst (EmitThunkCode (emi env) codegen patch)"
    let ?name = "snd (EmitThunkCode (emi env) codegen patch)"
    let ?w1 = "SetThunkCode patch ?code ?name w"
    from True Cons.prems have other: "ThunkSignature q \<noteq> ThunkSignature patch"
      using GetThunkCode_signature [of q patch w] by auto
    then have "GetThunkCode ?w1 q \<noteq> []"
      using Cons.prems by (simp add: GetThunkCode_SetThunkCode)
    from Cons.IH [OF this] obtain evs where
      ih: "w_trace (Emit_thunks env codegen ps ?w1) = w_trace ?w1 @ evs"
        "filter (is_registration (ThunkSignature q)) evs = []"
        "thunks (Emit_thunks env codegen ps ?w1) (ThunkSignature q) = thunks ?w1 (ThunkSignature q)"
      by blast
    have run: "Emit_thunks env codegen (patch # ps) w = Emit_thunks env codegen ps ?w1"
      using True by (simp add: Let_def)
    have "w_trace (Emit_thunks env codegen (patch # ps) w) =
        w_trace w @ (SetThunkCodeCall patch ?code ?name # evs)"
      using ih(1) run by (simp add: SetThunkCode_def)
    moreover have "filter (is_registration (ThunkSignature q))
        (SetThunkCodeCall patch ?code ?name # evs) = []"
      using ih(2) other by auto
    moreover have "thunks (Emit_thunks env codegen (patch # ps) w) (ThunkSignature q) =
        thunks w (ThunkSignature q)"
      using ih(3) run other by (simp add: SetThunkCode_def)
    ultimately show ?thesis by blast
  next
    case False
    with Cons.IH [OF Cons.prems] show ?thesis by auto
  qed
qed

lemma Emit_thunks_count:
  assumes nonempty: "\<forall>p. ThunkSignature p = ThunkSignature q \<and> NeedsThunkCode (emi env) codegen p \<longrightarrow>
                      fst (EmitThunkCode (emi env) codegen p) \<noteq> []"
  shows "\<exists>evs. w_trace (Emit_thunks env codegen ps w) = w_trace w @ evs
           \<and> length (filter (is_registration (ThunkSignature q)) evs) =
               (if GetThunkCode w q = []
                   \<and> (\<exists>p \<in> set ps. ThunkSignature p = ThunkSignature q
                                     \<and> NeedsThunkCode (emi env) codegen p)
                then 1 else 0)
           \<and> (GetThunkCode (Emit_thunks env codegen ps w) q \<noteq> []) =
               (GetThunkCode w q \<noteq> []
                \<or> (\<exists>p \<in> set ps. ThunkSignature p = ThunkSignature q
                                  \<and> NeedsThunkCode (emi env) codegen p))"
proof (induction ps arbitrary: w)
  case Nil
  then show ?case by simp
next
  case (Cons patch ps)
  let ?k = "ThunkSignature q"
  let ?needs = "\<lambda>p. ThunkSignature p = ?k \<and> NeedsThunkCode (emi env) codegen p"
  show ?case
  proof (cases "NeedsThunkCode (emi env) codegen patch \<and> GetThunkCode w patch = []")
    case True
    let ?code = "fst (EmitThunkCode (emi env) codegen patch)"
    let ?name = "snd (EmitThunkCode (emi env) codegen patch)"
    let ?w1 = "SetThunkCode patch ?code ?name w"
    have run: "Emit_thunks env codegen (patch # ps) w = Emit_thunks env codegen ps ?w1"
      using True by (simp add: Let_def)
    show ?thesis
    proof (cases "ThunkSignature patch = ?k")
      case same: True
      with True have empty: "GetThunkCode w q = []"
        using GetThunkCode_signature [of patch q w] by simp
      from same True nonempty have "?code \<noteq> []" by blast
      with same have registered: "GetThunkCode ?w1 q \<noteq> []"
        by (simp add: GetThunkCode_SetThunkCode)
      from Emit_thunks_existing [OF this, of env codegen ps] obtain evs where
        ex: "w_trace (Emit_thunks env codegen ps ?w1) = w_trace ?w1 @ evs"
          "filter (is_registration ?k) evs = []"
          "thunks (Emit_thunks env codegen ps ?w1) ?k = thunks ?w1 ?k"
        by blast
      have a: "w_trace (Emit_thunks env codegen (patch # ps) w) =
          w_trace w @ (SetThunkCodeCall patch ?code ?name # evs)"
        using ex(1) run by (simp add: SetThunkCode_def)
      have b: "length (filter (is_registration ?k)
          (SetThunkCodeCall patch ?code ?name # evs)) = 1"
        using ex(2) same by simp
      have c: "GetThunkCode w q = [] \<and> (\<exists>p \<in> set (patch # ps). ?needs p)"
        using empty same True by simp
      have "GetThunkCode (Emit_thunks env codegen ps ?w1) q = GetThunkCode ?w1 q"
        using ex(3) by (simp add: GetThunkCode_def)
      with registered run have d: "GetThunkCode (Emit_thunks env codegen (patch # ps) w) q \<noteq> []"
        by simp
      from a b c d show ?thesis by (metis (no_types, lifting))
    next
      case other: False
      then have code: "GetThunkCode ?w1 q = GetThunkCode w q"
        by (auto simp: GetThunkCode_SetThunkCode)
      from Cons.IH [of ?w1] obtain evs where
        ih: "w_trace (Emit_thunks env codegen ps ?w1) = w_trace ?w1 @ evs"
          "length (filter (is_registration ?k) evs) =
             (if GetThunkCode ?w1 q = [] \<and> (\<exists>p \<in> set ps. ?needs p) then 1 else 0)"
          "(GetThunkCode (Emit_thunks env codegen ps ?w1) q \<noteq> []) =
             (GetThunkCode ?w1 q \<noteq> [] \<or> (\<exists>p \<in> set ps. ?needs p))"
        by blast
      have a: "w_trace (Emit_thunks env codegen (patch # ps) w) =
          w_trace w @ (SetThunkCodeCall patch ?code ?name # evs)"
        using ih(1) run by (simp add: SetThunkCode_def)
      have b: "length (filter (is_registration ?k)
          (SetThunkCodeCall patch ?code ?name # evs)) =
          (if GetThunkCode w q = [] \<and> (\<exists>p \<in> set (patch # ps). ?needs p) then 1 else 0)"
        using ih(2) other code by simp
      have c: "(GetThunkCode (Emit_thunks env codegen (patch # ps) w) q \<noteq> []) =
          (GetThunkCode w q \<noteq> [] \<or> (\<exists>p \<in> set (patch # ps). ?needs p))"
        using ih(3) other code run by simp
      from a b c show ?thesis by blast
    qed
  next
    case False
    then have run: "Emit_thunks env codegen (patch # ps) w = Emit_thunks env codegen ps w"
      by auto
    from Cons.IH [of w] obtain evs where
      ih: "w_trace (Emit_thunks env codegen ps w) = w_trace w @ evs"
        "length (filter (is_registration ?k) evs) =
           (if GetThunkCode w q = [] \<and> (\<exists>p \<in> set ps. ?needs p) then 1 else 0)"
        "(GetThunkCode (Emit_thunks env codegen ps w) q \<noteq> []) =
           (GetThunkCode w q \<noteq> [] \<or> (\<exists>p \<in> set ps. ?needs p))"
      by blast
    have covered: "?needs patch \<Longrightarrow> GetThunkCode w q \<noteq> []"
      using False GetThunkCode_signature [of patch q w] by auto
    then have "(GetThunkCode w q = [] \<and> (\<exists>p \<in> set (patch # ps). ?needs p)) =
          (GetThunkCode w q = [] \<and> (\<exists>p \<in> set ps. ?needs p))"
      by auto
    moreover from covered have "(GetThunkCode w q \<noteq> [] \<or> (\<exists>p \<in> set (patch # ps). ?needs p)) =
          (GetThunkCode w q \<noteq> [] \<or> (\<exists>p \<in> set ps. ?needs p))"
      by auto
    ultimately show ?thesis using ih run by simp
  qed
qed

lemma Emit_thunks_stored:
  assumes "p \<in> set ps" and "NeedsThunkCode (emi env) codegen p"
  shows "thunks (Emit_thunks env codegen ps w) (ThunkSignature p) \<noteq> None"
proof -
  have kept: "thunks w k \<noteq> None \<Longrightarrow> thunks (Emit_thunks env codegen qs w) k \<noteq> None" for k qs w
    by (induction qs arbitrary: w) (auto simp: Let_def SetThunkCode_def)
  from assms show ?thesis
  proof (induction ps arbitrary: w)
    case Nil
    then show ?case by simp
  next
    case (Cons patch ps)
    show ?case
    proof (cases "patch = p")
      case True
      show ?thesis
      proof (cases "GetThunkCode w p = []")
        case empty: True
        let ?w1 = "SetThunkCode p (fst (EmitThunkCode (emi env) codegen p))
                     (snd (EmitThunkCode (emi env) codegen p)) w"
        have "thunks ?w1 (ThunkSignature p) \<noteq> None"
          by (simp add: SetThunkCode_def)
        then have "thunks (Emit_thunks env codegen ps ?w1) (ThunkSignature p) \<noteq> None"
          by (rule kept)
        moreover have "Emit_thunks env codegen (patch # ps) w = Emit_thunks env codegen ps ?w1"
          using True empty Cons.prems(2) by (simp add: Let_def)
        ultimately show ?thesis by simp
      next
        case False
        then have "thunks w (ThunkSignature p) \<noteq> None"
          by (auto simp: GetThunkCode_def split: option.splits)
        moreover have "Emit_thunks env codegen (patch # ps) w = Emit_thunks env codegen ps w"
          using True False by simp
        ultimately show ?thesis by (simp add: kept)
      qed
    next
      case False
      with Cons.prems have "p \<in> set ps" by simp
      from Cons.IH [OF this Cons.prems(2)] show ?thesis by (auto simp: Let_def)
    qed
  qed
qed


lemma Emit_world: "snd (Emit env codegen item w) = Emit_thunks env codegen (EmitAndSortLinkerPatches env codegen) w"
  by (simp add: Emit_def Let_def)

lemma Emit_patches: "set (cm_patches (fst (Emit env codegen item w))) = set (EmitLinkerPatches (emi env) codegen)"
proof -
  have "mset (cm_patches (fst (Emit env codegen item w))) = mset (EmitLinkerPatches (emi env) codegen)"
    by (simp add: Emit_def Let_def SwapAllocCompiledMethod_def EmitAndSortLinkerPatches_def
        mset_std_sort)
  then show ?thesis by (rule mset_eq_setD)
qed

lemma registrations_append:
  assumes "w_trace w1 = w_trace w0 @ evs1" and "w_trace w2 = w_trace w1 @ evs2"
  shows "registrations k w0 w2 = registrations k w0 w1 @ registrations k w1 w2"
  using assms by (simp add: registrations_def)

text \<open>
  Claim C9. Two methods are compiled one after the other against the same storage; a patch
  of the first and a patch of the second require thunk code and have the same
  signature. Both patches are in their artifacts, the storage holds a blob under the
  signature, and both patches resolve to it. A compilation that finds thunk code under
  the signature registers none and leaves the blob as it is. With code generators
  that emit non-empty thunk code, the two compilations together register thunk code
  under the signature exactly once when the storage had none, and never when it had.
\<close>

theorem thunks_are_deduplicated:
  assumes first: "Emit env1 codegen1 item1 w0 = (m1, w1)"
    and second: "Emit env2 codegen2 item2 w1 = (m2, w2)"
    and p1: "p1 \<in> set (EmitLinkerPatches (emi env1) codegen1)"
    and needs1: "NeedsThunkCode (emi env1) codegen1 p1"
    and p2: "p2 \<in> set (EmitLinkerPatches (emi env2) codegen2)"
    and needs2: "NeedsThunkCode (emi env2) codegen2 p2"
    and same: "ThunkSignature p1 = ThunkSignature p2"
  shows "p1 \<in> set (cm_patches m1) \<and> p2 \<in> set (cm_patches m2)
     \<and> thunks w2 (ThunkSignature p1) \<noteq> None
     \<and> GetThunkCode w2 p1 = GetThunkCode w2 p2
     \<and> (GetThunkCode w0 p1 \<noteq> [] \<longrightarrow>
          registrations (ThunkSignature p1) w0 w1 = []
          \<and> thunks w1 (ThunkSignature p1) = thunks w0 (ThunkSignature p1))
     \<and> (GetThunkCode w1 p1 \<noteq> [] \<longrightarrow>
          registrations (ThunkSignature p1) w1 w2 = []
          \<and> thunks w2 (ThunkSignature p1) = thunks w1 (ThunkSignature p1))
     \<and> ((\<forall>p. ThunkSignature p = ThunkSignature p1 \<and> NeedsThunkCode (emi env1) codegen1 p \<longrightarrow>
              fst (EmitThunkCode (emi env1) codegen1 p) \<noteq> []) \<longrightarrow>
          length (registrations (ThunkSignature p1) w0 w2) =
            (if GetThunkCode w0 p1 = [] then 1 else 0)
          \<and> GetThunkCode w2 p1 \<noteq> [])"
proof -
  let ?k = "ThunkSignature p1"
  let ?ps1 = "EmitAndSortLinkerPatches env1 codegen1"
  let ?ps2 = "EmitAndSortLinkerPatches env2 codegen2"
  from first have w1: "w1 = Emit_thunks env1 codegen1 ?ps1 w0"
    using Emit_world [of env1 codegen1 item1 w0] by simp
  from second have w2: "w2 = Emit_thunks env2 codegen2 ?ps2 w1"
    using Emit_world [of env2 codegen2 item2 w1] by simp
  from first have m1: "m1 = fst (Emit env1 codegen1 item1 w0)" by simp
  from second have m2: "m2 = fst (Emit env2 codegen2 item2 w1)" by simp
  have in1: "p1 \<in> set (cm_patches m1)" using p1 m1 by (simp add: Emit_patches)
  have in2: "p2 \<in> set (cm_patches m2)" using p2 m2 by (simp add: Emit_patches)
  have s1: "p1 \<in> set ?ps1"
    using p1 Emit_patches [of env1 codegen1 item1 w0]
    by (simp add: Emit_def Let_def SwapAllocCompiledMethod_def)
  have s2: "p2 \<in> set ?ps2"
    using p2 Emit_patches [of env2 codegen2 item2 w1]
    by (simp add: Emit_def Let_def SwapAllocCompiledMethod_def)
  obtain evs1 where t1: "w_trace w1 = w_trace w0 @ evs1"
    using Emit_thunks_trace [of env1 codegen1 ?ps1 w0] w1 by blast
  obtain evs2 where t2: "w_trace w2 = w_trace w1 @ evs2"
    using Emit_thunks_trace [of env2 codegen2 ?ps2 w1] w2 by blast
  have stored: "thunks w2 ?k \<noteq> None"
    using Emit_thunks_stored [OF s2 needs2, of w1] w2 same by simp
  have resolve: "GetThunkCode w2 p1 = GetThunkCode w2 p2"
    using same by (rule GetThunkCode_signature)
  have keep1: "registrations ?k w0 w1 = [] \<and> thunks w1 ?k = thunks w0 ?k"
    if "GetThunkCode w0 p1 \<noteq> []"
    using Emit_thunks_existing [OF that, of env1 codegen1 ?ps1] w1
    by (auto simp: registrations_def)
  have keep2: "registrations ?k w1 w2 = [] \<and> thunks w2 ?k = thunks w1 ?k"
    if "GetThunkCode w1 p1 \<noteq> []"
    using Emit_thunks_existing [OF that, of env2 codegen2 ?ps2] w2
    by (auto simp: registrations_def)
  have once: "length (registrations ?k w0 w2) = (if GetThunkCode w0 p1 = [] then 1 else 0)
      \<and> GetThunkCode w2 p1 \<noteq> []"
    if nonempty: "\<forall>p. ThunkSignature p = ?k \<and> NeedsThunkCode (emi env1) codegen1 p \<longrightarrow>
              fst (EmitThunkCode (emi env1) codegen1 p) \<noteq> []"
  proof -
    from Emit_thunks_count [OF nonempty, of ?ps1 w0] obtain evs where
      c: "w_trace w1 = w_trace w0 @ evs"
        "length (filter (is_registration ?k) evs) =
           (if GetThunkCode w0 p1 = []
               \<and> (\<exists>p \<in> set ?ps1. ThunkSignature p = ?k \<and> NeedsThunkCode (emi env1) codegen1 p)
            then 1 else 0)"
        "(GetThunkCode w1 p1 \<noteq> []) =
           (GetThunkCode w0 p1 \<noteq> []
            \<or> (\<exists>p \<in> set ?ps1. ThunkSignature p = ?k \<and> NeedsThunkCode (emi env1) codegen1 p))"
      using w1 by blast
    from s1 needs1 have ex: "\<exists>p \<in> set ?ps1. ThunkSignature p = ?k
        \<and> NeedsThunkCode (emi env1) codegen1 p" by blast
    from c(1,2) ex have n1:
      "length (registrations ?k w0 w1) = (if GetThunkCode w0 p1 = [] then 1 else 0)"
      by (simp add: registrations_def)
    from c(3) ex have code1: "GetThunkCode w1 p1 \<noteq> []" by simp
    from keep2 [OF code1] have n2: "registrations ?k w1 w2 = []"
      and same_blob: "thunks w2 ?k = thunks w1 ?k" by simp_all
    from registrations_append [OF t1 t2, of ?k] n1 n2
    have "length (registrations ?k w0 w2) = (if GetThunkCode w0 p1 = [] then 1 else 0)" by simp
    moreover from same_blob code1 have "GetThunkCode w2 p1 \<noteq> []" by (simp add: GetThunkCode_def)
    ultimately show ?thesis by simp
  qed
  from in1 in2 stored resolve keep1 keep2 once show ?thesis by blast
qed


theorem thunks_are_deduplicated_witness:
  "GetThunkCode world_ex patch_ex = []
   \<and> length (registrations 7 world_ex
               (snd (Emit env_ex 1 None (snd (Emit env_ex 0 None world_ex))))) = 1
   \<and> GetThunkCode (snd (Emit env_ex 1 None (snd (Emit env_ex 0 None world_ex)))) patch_ex \<noteq> []
   \<and> patch_ex \<in> set (cm_patches (fst (Emit env_ex 0 None world_ex)))
   \<and> patch_ex \<in> set (cm_patches (fst (Emit env_ex 1 None (snd (Emit env_ex 0 None world_ex)))))"
proof -
  let ?w1 = "snd (Emit env_ex 0 None world_ex)"
  let ?w2 = "snd (Emit env_ex 1 None ?w1)"
  have first: "Emit env_ex 0 None world_ex = (fst (Emit env_ex 0 None world_ex), ?w1)"
    by simp
  have second: "Emit env_ex 1 None ?w1 = (fst (Emit env_ex 1 None ?w1), ?w2)"
    by simp
  have p1: "patch_ex \<in> set (EmitLinkerPatches (emi env_ex) 0)"
    by (simp add: env_ex_def emi_ex_def patch_ex_def)
  have needs1: "NeedsThunkCode (emi env_ex) 0 patch_ex"
    by (simp add: env_ex_def emi_ex_def)
  have p2: "patch_ex \<in> set (EmitLinkerPatches (emi env_ex) 1)"
    by (simp add: env_ex_def emi_ex_def patch_ex_def)
  have needs2: "NeedsThunkCode (emi env_ex) 1 patch_ex"
    by (simp add: env_ex_def emi_ex_def)
  have same: "ThunkSignature patch_ex = ThunkSignature patch_ex" by simp
  have nonempty: "\<forall>p. ThunkSignature p = ThunkSignature patch_ex
      \<and> NeedsThunkCode (emi env_ex) 0 p \<longrightarrow> fst (EmitThunkCode (emi env_ex) 0 p) \<noteq> []"
    by (simp add: env_ex_def emi_ex_def)
  have none: "GetThunkCode world_ex patch_ex = []"
    by (simp add: GetThunkCode_def world_ex_def)
  have k: "ThunkSignature patch_ex = 7" by (simp add: patch_ex_def)
  from thunks_are_deduplicated [OF first second p1 needs1 p2 needs2 same] nonempty none
  have "length (registrations (ThunkSignature patch_ex) world_ex ?w2) = 1
      \<and> GetThunkCode ?w2 patch_ex \<noteq> []
      \<and> patch_ex \<in> set (cm_patches (fst (Emit env_ex 0 None world_ex)))
      \<and> patch_ex \<in> set (cm_patches (fst (Emit env_ex 1 None ?w1)))"
    by presburger
  with none k show ?thesis by simp
qed


section \<open>The JNI stub\<close>

text \<open>
  Claim C10. \<^verbatim>\<open>JniCompile\<close> marks exactly the artifacts of its intrinsic path as
  intrinsic. An artifact it returns unmarked, which is one of the generic JNI stub, has
  no relocation patches, and its stack map is the one \<^verbatim>\<open>CreateJniStackMap\<close> builds: the
  encoding of a stream begun with the stub's frame size and spill masks and zero dex
  registers and ended at the stub's code size.
\<close>

theorem JniCompile_stub_artifact:
  assumes "JniCompile env w = Inr (compiled_method, w')"
    and "\<not> cm_intrinsic compiled_method"
  shows "cm_patches compiled_method = []
     \<and> cm_stack_map compiled_method =
         CreateJniStackMap env (ArtQuickJniCompileMethod (rt env))
           (length (jni_code (ArtQuickJniCompileMethod (rt env))))
           (GetDebuggable (options env) \<and> IsJitCompiler (options env))
     \<and> cm_stack_map compiled_method =
         StackMapStream_Encode (rt env)
           \<lparr>sms_instruction_set = jni_instruction_set (ArtQuickJniCompileMethod (rt env)),
            sms_frame_size = jni_frame_size (ArtQuickJniCompileMethod (rt env)),
            sms_core_spill_mask = jni_core_spill_mask (ArtQuickJniCompileMethod (rt env)),
            sms_fp_spill_mask = jni_fp_spill_mask (ArtQuickJniCompileMethod (rt env)),
            sms_num_dex_registers = 0,
            sms_baseline = False,
            sms_debuggable = (GetDebuggable (options env) \<and> IsJitCompiler (options env)),
            sms_code_size = length (jni_code (ArtQuickJniCompileMethod (rt env)))\<rparr>"
proof -
  have stub: "cm_patches (fst (JniCompile_stub env v)) = []
     \<and> cm_stack_map (fst (JniCompile_stub env v)) =
         CreateJniStackMap env (ArtQuickJniCompileMethod (rt env))
           (length (jni_code (ArtQuickJniCompileMethod (rt env))))
           (GetDebuggable (options env) \<and> IsJitCompiler (options env))" for v
    by (simp add: JniCompile_stub_def Let_def SwapAllocCompiledMethod_def)
  from assms have "\<exists>v v'. JniCompile_stub env v = (compiled_method, v')"
    by (auto simp: JniCompile_def and_then_def MarkAsIntrinsic_def Let_def
        split: if_splits option.splits sum.splits)
  then obtain v v' where "JniCompile_stub env v = (compiled_method, v')" by blast
  then have "compiled_method = fst (JniCompile_stub env v)" by simp
  with stub [of v] show ?thesis
    by (simp add: CreateJniStackMap_def)
qed

theorem JniCompile_stub_artifact_witness:
  "JniCompile env_ex world_ex =
     Inr (\<lparr>cm_instruction_set = kArm64, cm_code = [1, 2], cm_stack_map = [6], cm_cfi = [],
           cm_patches = [], cm_intrinsic = False\<rparr>,
          world_ex\<lparr>w_trace := [MaybeRecordStat kCompiledNativeStub]\<rparr>)
   \<and> cm_stack_map \<lparr>cm_instruction_set = kArm64, cm_code = [1, 2], cm_stack_map = [6],
                    cm_cfi = [], cm_patches = [], cm_intrinsic = False\<rparr> =
       StackMapStream_Encode (rt env_ex)
         \<lparr>sms_instruction_set = kArm64, sms_frame_size = 16, sms_core_spill_mask = 0,
          sms_fp_spill_mask = 0, sms_num_dex_registers = 0, sms_baseline = False,
          sms_debuggable = False, sms_code_size = 2\<rparr>"
proof -
  let ?m = "\<lparr>cm_instruction_set = kArm64, cm_code = [1, 2], cm_stack_map = [6], cm_cfi = [],
           cm_patches = [], cm_intrinsic = False\<rparr>"
  have run: "JniCompile env_ex world_ex =
      Inr (?m, world_ex\<lparr>w_trace := [MaybeRecordStat kCompiledNativeStub]\<rparr>)"
    by (simp add: JniCompile_def JniCompile_stub_def CreateJniStackMap_def
        SwapAllocCompiledMethod_def env_ex_def opts_ex_def rt_ex_def jni_ex_def world_ex_def
        Let_def)
  have plain: "\<not> cm_intrinsic ?m" by simp
  from JniCompile_stub_artifact [OF run plain] run
  show ?thesis
    by (simp add: env_ex_def opts_ex_def rt_ex_def jni_ex_def)
qed

end
